theory Spec2Isabelle
  imports Complex_Main
begin

section \<open>Strings and regular expressions of the scrapers\<close>

text \<open>
  A JavaScript string is modelled as a \<open>string\<close> (a \<open>char list\<close>), one list element per
  code unit; \<open>length\<close> is the string's \<open>.length\<close>. Only code units below 256 are
  representable; the patterns of the source mention ASCII characters only.

  The scrapers read their documents with regular expressions. The expressions are
  transcribed one by one into the datatype \<open>rx\<close> below and run by a backtracking matcher
  with the priorities of the JavaScript engine: alternatives of a quantifier are tried
  greedy-first (or lazy-first for \<open>*?\<close>, \<open>+?\<close>), the leftmost start position wins, and a
  capture group records the text it matched.
\<close>

datatype cls = Pos "(nat \<times> nat) list" | Neg "(nat \<times> nat) list"

fun in_ranges :: "(nat \<times> nat) list \<Rightarrow> nat \<Rightarrow> bool" where
  "in_ranges [] n = False"
| "in_ranges ((lo, hi) # rs) n = ((lo \<le> n \<and> n \<le> hi) \<or> in_ranges rs n)"

fun in_cls :: "cls \<Rightarrow> char \<Rightarrow> bool" where
  "in_cls (Pos rs) c = in_ranges rs (of_char c)"
| "in_cls (Neg rs) c = (\<not> in_ranges rs (of_char c))"

text \<open>The character classes the source uses, by code unit ranges.\<close>

definition digit :: cls where \<comment> \<open>\<open>\d\<close>\<close>
  "digit = Pos [(48, 57)]"

definition digit_dot :: cls where \<comment> \<open>\<open>[\d.]\<close>\<close>
  "digit_dot = Pos [(48, 57), (46, 46)]"

definition upper :: cls where \<comment> \<open>\<open>[A-Z]\<close>\<close>
  "upper = Pos [(65, 90)]"

definition space :: cls where \<comment> \<open>\<open>\s\<close>: tab, LF, VT, FF, CR, space, no-break space\<close>
  "space = Pos [(9, 13), (32, 32), (160, 160)]"

definition nonspace :: cls where \<comment> \<open>\<open>\S\<close>\<close>
  "nonspace = Neg [(9, 13), (32, 32), (160, 160)]"

definition any_char :: cls where \<comment> \<open>\<open>.\<close> under the \<open>s\<close> flag\<close>
  "any_char = Neg []"

definition not_newline :: cls where \<comment> \<open>\<open>.\<close> without the \<open>s\<close> flag\<close>
  "not_newline = Neg [(10, 10), (13, 13)]"

definition not_quote :: cls where \<comment> \<open>\<open>[^"]\<close>\<close>
  "not_quote = Neg [(34, 34)]"

definition not_quote_qmark :: cls where \<comment> \<open>\<open>[^"?]\<close>\<close>
  "not_quote_qmark = Neg [(34, 34), (63, 63)]"

definition not_brace :: cls where \<comment> \<open>\<open>[^}]\<close>\<close>
  "not_brace = Neg [(125, 125)]"

definition not_lt :: cls where \<comment> \<open>\<open>[^<]\<close>\<close>
  "not_lt = Neg [(60, 60)]"

definition not_gt :: cls where \<comment> \<open>\<open>[^>]\<close>\<close>
  "not_gt = Neg [(62, 62)]"

definition bar_dash :: cls where \<comment> \<open>\<open>[|-]\<close>\<close>
  "bar_dash = Pos [(124, 124), (45, 45)]"

text \<open>
  \<open>Lit l\<close> is a literal run of characters; \<open>Chr cl\<close> is one character of a class;
  \<open>Many greedy n cl\<close> is a class repeated at least \<open>n\<close> times (\<open>cl*\<close>, \<open>cl+\<close>, \<open>cl{10,}\<close>, lazy when \<open>greedy\<close> is false); \<open>Grp r\<close> is
  a capture group; \<open>Star r\<close> is a greedy \<open>(?:r)*\<close>; \<open>Eos\<close> is \<open>$\<close> (no \<open>m\<close> flag).
\<close>

datatype rx = Lit string | Chr cls | Many bool nat cls | Seq rx rx | Grp rx | Star rx | Eos

fun seq :: "rx list \<Rightarrow> rx" where
  "seq [] = Lit []"
| "seq [r] = r"
| "seq (r # rs) = Seq r (seq rs)"

fun starts_with :: "string \<Rightarrow> string \<Rightarrow> bool" where
  "starts_with s [] = True"
| "starts_with [] (p # ps) = False"
| "starts_with (x # xs) (p # ps) = (x = p \<and> starts_with xs ps)"

text \<open>
  The matcher is written with a continuation \<open>k\<close>: what is left of the input and the
  captures so far are handed to the rest of the pattern, and \<open>None\<close> makes the caller
  backtrack to its next alternative.
\<close>

fun many :: "bool \<Rightarrow> nat \<Rightarrow> cls \<Rightarrow> string \<Rightarrow> string list \<Rightarrow>
    (string \<Rightarrow> string list \<Rightarrow> 'a option) \<Rightarrow> 'a option" where
  "many g n cl [] c k = (if n = 0 then k [] c else None)"
| "many g n cl (x # xs) c k =
     (if 0 < n then (if in_cls cl x then many g (n - 1) cl xs c k else None)
      else if g then
        (case (if in_cls cl x then many g 0 cl xs c k else None) of
           Some r \<Rightarrow> Some r
         | None \<Rightarrow> k (x # xs) c)
      else
        (case k (x # xs) c of
           Some r \<Rightarrow> Some r
         | None \<Rightarrow> (if in_cls cl x then many g 0 cl xs c k else None)))"

text \<open>
  A repeated group: an iteration that consumes nothing is rejected, as the engine does,
  so the input length bounds the number of iterations.
\<close>

fun iter :: "nat \<Rightarrow> (string \<Rightarrow> string list \<Rightarrow> (string \<Rightarrow> string list \<Rightarrow> 'a option) \<Rightarrow> 'a option) \<Rightarrow>
    string \<Rightarrow> string list \<Rightarrow> (string \<Rightarrow> string list \<Rightarrow> 'a option) \<Rightarrow> 'a option" where
  "iter 0 m s c k = k s c"
| "iter (Suc n) m s c k =
     (case m s c (\<lambda>s' c'. if length s' < length s then iter n m s' c' k else None) of
        Some r \<Rightarrow> Some r
      | None \<Rightarrow> k s c)"

fun rmatch :: "rx \<Rightarrow> string \<Rightarrow> string list \<Rightarrow>
    (string \<Rightarrow> string list \<Rightarrow> 'a option) \<Rightarrow> 'a option" where
  "rmatch (Lit l) s c k = (if starts_with s l then k (drop (length l) s) c else None)"
| "rmatch (Chr cl) s c k =
     (case s of [] \<Rightarrow> None | x # xs \<Rightarrow> if in_cls cl x then k xs c else None)"
| "rmatch (Many g n cl) s c k = many g n cl s c k"
| "rmatch (Seq a b) s c k = rmatch a s c (\<lambda>s' c'. rmatch b s' c' k)"
| "rmatch (Grp r) s c k = rmatch r s c (\<lambda>s' c'. k s' (c' @ [take (length s - length s') s]))"
| "rmatch (Star r) s c k = iter (length s) (\<lambda>s' c' k'. rmatch r s' c' k') s c k"
| "rmatch Eos s c k = (if s = [] then k s c else None)"

text \<open>
  \<open>rfind r pre s\<close> is the first match of \<open>r\<close> in \<open>s\<close>: the text before the match
  (appended to \<open>pre\<close>), the captures in group order, and the input after the match (where
  a global expression's \<open>lastIndex\<close> then points).
\<close>

fun rfind :: "rx \<Rightarrow> string \<Rightarrow> string \<Rightarrow> (string \<times> string list \<times> string) option" where
  "rfind r pre [] = rmatch r [] [] (\<lambda>s' c'. Some (pre, c', s'))"
| "rfind r pre (x # xs) =
     (case rmatch r (x # xs) [] (\<lambda>s' c'. Some (pre, c', s')) of
        Some m \<Rightarrow> Some m
      | None \<Rightarrow> rfind r (pre @ [x]) xs)"

definition group1 :: "rx \<Rightarrow> string \<Rightarrow> string option" where
  \<comment> \<open>\<open>s.match(r)\<close> and then \<open>[1]\<close>; \<open>None\<close> when \<open>match\<close> returns \<open>null\<close>\<close>
  "group1 r s = (case rfind r [] s of Some (pre, g # gs, rest) \<Rightarrow> Some g | _ \<Rightarrow> None)"

definition replace_first :: "rx \<Rightarrow> string \<Rightarrow> string \<Rightarrow> string" where
  \<comment> \<open>\<open>s.replace(r, t)\<close> for an expression without the \<open>g\<close> flag and a plain \<open>t\<close>\<close>
  "replace_first r t s = (case rfind r [] s of None \<Rightarrow> s | Some (pre, gs, rest) \<Rightarrow> pre @ t @ rest)"

fun includes_str :: "string \<Rightarrow> string \<Rightarrow> bool" where
  "includes_str [] p = (p = [])"
| "includes_str (x # xs) p = (starts_with (x # xs) p \<or> includes_str xs p)"

definition trim :: "string \<Rightarrow> string" where
  "trim s = rev (dropWhile (in_cls space) (rev (dropWhile (in_cls space) s)))"

text \<open>A match consumes at least \<open>min_len r\<close> characters.\<close>

fun min_len :: "rx \<Rightarrow> nat" where
  "min_len (Lit l) = length l"
| "min_len (Chr cl) = 1"
| "min_len (Many g n cl) = n"
| "min_len (Seq a b) = min_len a + min_len b"
| "min_len (Grp r) = min_len r"
| "min_len (Star r) = 0"
| "min_len Eos = 0"

lemma starts_with_length: "starts_with s l \<Longrightarrow> length l \<le> length s"
  by (induction s l rule: starts_with.induct) auto

lemma many_consumes:
  "many g n cl s c k = Some x \<Longrightarrow> \<exists>s' c'. k s' c' = Some x \<and> length s' + n \<le> length s"
proof (induction s arbitrary: n)
  case Nil
  then show ?case by (auto split: if_splits)
next
  case (Cons a s)
  show ?case
  proof (cases "0 < n")
    case True
    with Cons.prems have "many g (n - 1) cl s c k = Some x"
      by (auto split: if_splits)
    from Cons.IH [OF this] True show ?thesis by fastforce
  next
    case False
    then have n: "n = 0" by simp
    from Cons.prems n consider "k (a # s) c = Some x" | "many g 0 cl s c k = Some x"
      by (auto split: if_splits option.splits)
    then show ?thesis
    proof cases
      case 1
      with n show ?thesis by auto
    next
      case 2
      from Cons.IH [OF this] n show ?thesis by fastforce
    qed
  qed
qed

lemma iter_consumes:
  assumes m: "\<And>s c k. m s c k = Some x \<Longrightarrow> \<exists>s' c'. k s' c' = Some x \<and> length s' \<le> length s"
  shows "iter n m s c k = Some x \<Longrightarrow> \<exists>s' c'. k s' c' = Some x \<and> length s' \<le> length s"
proof (induction n arbitrary: s c)
  case 0
  then show ?case by auto
next
  case (Suc n)
  let ?k = "\<lambda>s' c'. if length s' < length s then iter n m s' c' k else None"
  from Suc.prems consider "m s c ?k = Some x" | "k s c = Some x"
    by (auto split: option.splits)
  then show ?case
  proof cases
    case 1
    from m [OF this] obtain s1 c1 where "?k s1 c1 = Some x" and "length s1 \<le> length s"
      by blast
    then have "iter n m s1 c1 k = Some x" and "length s1 < length s"
      by (auto split: if_splits)
    from Suc.IH [OF this(1)] this(2) show ?thesis by fastforce
  next
    case 2
    then show ?thesis by auto
  qed
qed

lemma rmatch_consumes:
  "rmatch r s c k = Some x \<Longrightarrow> \<exists>s' c'. k s' c' = Some x \<and> length s' + min_len r \<le> length s"
proof (induction r arbitrary: s c k)
  case (Lit l)
  then have "starts_with s l" and "k (drop (length l) s) c = Some x"
    by (auto split: if_splits)
  moreover from this(1) have "length (drop (length l) s) + length l \<le> length s"
    by (auto dest: starts_with_length)
  ultimately show ?case by auto
next
  case (Chr cl)
  then show ?case by (cases s) (auto split: if_splits)
next
  case (Many g n cl)
  then have "many g n cl s c k = Some x" by simp
  from many_consumes [OF this] show ?case by simp
next
  case (Seq a b)
  from Seq.prems have "rmatch a s c (\<lambda>s' c'. rmatch b s' c' k) = Some x" by simp
  from Seq.IH(1) [OF this] obtain s1 c1
    where b: "rmatch b s1 c1 k = Some x" and l1: "length s1 + min_len a \<le> length s"
    by blast
  from Seq.IH(2) [OF b] obtain s2 c2
    where "k s2 c2 = Some x" and "length s2 + min_len b \<le> length s1"
    by blast
  with l1 show ?case by fastforce
next
  case (Grp r)
  from Grp.prems
  have "rmatch r s c (\<lambda>s' c'. k s' (c' @ [take (length s - length s') s])) = Some x"
    by simp
  from Grp.IH [OF this] show ?case by fastforce
next
  case (Star r)
  have "\<And>s c k. rmatch r s c k = Some x \<Longrightarrow>
      \<exists>s' c'. k s' c' = Some x \<and> length s' \<le> length s"
    using Star.IH by fastforce
  from iter_consumes [of "\<lambda>s' c' k'. rmatch r s' c' k'", OF this] Star.prems
  show ?case by simp
next
  case Eos
  then show ?case by (auto split: if_splits)
qed

lemma rfind_progress:
  "rfind r pre s = Some (p, gs, rest) \<Longrightarrow> length rest + min_len r \<le> length s"
proof (induction s arbitrary: pre)
  case Nil
  then have "rmatch r [] [] (\<lambda>s' c'. Some (pre, c', s')) = Some (p, gs, rest)" by simp
  from rmatch_consumes [OF this] show ?case by auto
next
  case (Cons a s)
  show ?case
  proof (cases "rmatch r (a # s) [] (\<lambda>s' c'. Some (pre, c', s'))")
    case None
    with Cons.prems have "rfind r (pre @ [a]) s = Some (p, gs, rest)" by simp
    from Cons.IH [OF this] show ?thesis by simp
  next
    case (Some m)
    with Cons.prems have "rmatch r (a # s) [] (\<lambda>s' c'. Some (pre, c', s')) = Some (p, gs, rest)"
      by simp
    from rmatch_consumes [OF this] show ?thesis by auto
  qed
qed

section \<open>JavaScript values and the runtime\<close>

text \<open>
  The scrapers work on untyped data (\<open>any\<close>): the parsed JSON of a response, and the
  objects the extractor builds. \<open>jsv\<close> is the type of these values. An object is an
  association list read with \<open>map_of\<close>; \<open>JNaN\<close> is the number \<open>NaN\<close>, every other number
  is a real (the infinities are not modelled).
\<close>

datatype error =
    FetchError string real \<comment> \<open>the \<open>Error\<close> thrown on \<open>!response.ok\<close>: operation and status\<close>
  | ShapeError string \<comment> \<open>\<open>Invalid thread response for <id>\<close>\<close>
  | TypeError
  | SyntaxError
  | RangeError
  | TransportError

datatype jsv =
    JUndefined
  | JNull
  | JBool bool
  | JNum real
  | JNaN
  | JStr string
  | JArr "jsv list"
  | JObj "(string \<times> jsv) list"

fun and_then :: "error + 'a \<Rightarrow> ('a \<Rightarrow> error + 'b) \<Rightarrow> error + 'b" where
  "and_then (Inl e) f = Inl e"
| "and_then (Inr x) f = f x"

fun truthy :: "jsv \<Rightarrow> bool" where
  "truthy JUndefined = False"
| "truthy JNull = False"
| "truthy (JBool b) = b"
| "truthy (JNum x) = (x \<noteq> 0)"
| "truthy JNaN = False"
| "truthy (JStr s) = (s \<noteq> [])"
| "truthy (JArr xs) = True"
| "truthy (JObj kvs) = True"

fun nullish :: "jsv \<Rightarrow> bool" where
  "nullish JUndefined = True"
| "nullish JNull = True"
| "nullish v = False"

definition js_or :: "jsv \<Rightarrow> jsv \<Rightarrow> jsv" where \<comment> \<open>\<open>a || b\<close>\<close>
  "js_or a b = (if truthy a then a else b)"

definition nullish_or :: "jsv \<Rightarrow> jsv \<Rightarrow> jsv" where \<comment> \<open>\<open>a ?? b\<close>\<close>
  "nullish_or a b = (if nullish a then b else a)"

text \<open>
  \<open>jget v k\<close> is \<open>v.k\<close> for a receiver that is neither \<open>null\<close> nor \<open>undefined\<close> (on
  those the access throws a \<open>TypeError\<close>, which the callers below write out). The keys
  the scrapers read are data keys and \<open>length\<close>; no other inherited member is read.
  \<open>jget_opt v k\<close> is \<open>v?.k\<close>.
\<close>

fun jget :: "jsv \<Rightarrow> string \<Rightarrow> jsv" where
  "jget (JObj kvs) k = (case map_of kvs k of None \<Rightarrow> JUndefined | Some v \<Rightarrow> v)"
| "jget (JArr xs) k = (if k = ''length'' then JNum (real (length xs)) else JUndefined)"
| "jget (JStr s) k = (if k = ''length'' then JNum (real (length s)) else JUndefined)"
| "jget v k = JUndefined"

definition jget_opt :: "jsv \<Rightarrow> string \<Rightarrow> jsv" where
  "jget_opt v k = (if nullish v then JUndefined else jget v k)"


fun strict_eq :: "jsv \<Rightarrow> jsv \<Rightarrow> bool" where
  \<comment> \<open>\<open>a === b\<close>; two objects met at different places of a parsed document are never
      the same object\<close>
  "strict_eq (JArr xs) b = False"
| "strict_eq (JObj kvs) b = False"
| "strict_eq JNaN b = False"
| "strict_eq a b = (a = b)"

fun typeof_object :: "jsv \<Rightarrow> bool" where \<comment> \<open>\<open>typeof v === 'object'\<close>\<close>
  "typeof_object JNull = True"
| "typeof_object (JArr xs) = True"
| "typeof_object (JObj kvs) = True"
| "typeof_object v = False"


text \<open>
  What the JavaScript runtime and the transport contribute is a parameter of the model:
  number formatting and parsing, the conversion of objects to primitives, dates, URL
  encoding and \<open>JSON.parse\<close>. Every theorem below holds for every runtime.

  A number is the real value of a double. Comparison, \<open>Math.min\<close>, \<open>Math.max\<close>,
  \<open>Math.ceil\<close> and \<open>Math.round\<close> are exact on these values; a product, a quotient or a
  difference is rounded to a double again, so \<open>*\<close>, \<open>/\<close> and \<open>-\<close> are the runtime's
  \<open>float_times\<close>, \<open>float_divide\<close> and \<open>float_minus\<close>.
\<close>

record runtime =
  json_parse :: "string \<Rightarrow> jsv option" \<comment> \<open>\<open>JSON.parse\<close>; \<open>None\<close> when it throws\<close>
  parse_float :: "string \<Rightarrow> real option" \<comment> \<open>\<open>parseFloat\<close>; \<open>None\<close> is \<open>NaN\<close>\<close>
  parse_int :: "string \<Rightarrow> real option" \<comment> \<open>\<open>parseInt\<close>; \<open>None\<close> is not a finite number\<close>
  date_to_iso :: "real \<Rightarrow> string option" \<comment> \<open>\<open>new Date(ms).toISOString()\<close>; \<open>None\<close> when it throws\<close>
  number_to_string :: "real \<Rightarrow> string"
  string_to_number :: "string \<Rightarrow> real option"
  object_to_string :: "jsv \<Rightarrow> string option" \<comment> \<open>of an array or object; \<open>None\<close> when it throws\<close>
  object_to_number :: "jsv \<Rightarrow> real option option"
  encodeURIComponent :: "string \<Rightarrow> string"
  url_search_params :: "(string \<times> string) list \<Rightarrow> string" \<comment> \<open>\<open>URLSearchParams.toString\<close>\<close>
  date_now :: real
  float_times :: "real \<Rightarrow> real \<Rightarrow> real"
  float_divide :: "real \<Rightarrow> real \<Rightarrow> real"
  float_minus :: "real \<Rightarrow> real \<Rightarrow> real"

text \<open>
  The response of the transport, as far as the scrapers read it: \<open>json_body\<close> is what
  \<open>response.json()\<close> resolves to, or the exception it rejects with. \<open>proxyFetch\<close> is a
  parameter of every operation; its options (headers, retries, timeout) are constants of
  each scraper and stay inside the transport.
\<close>

record response =
  ok :: bool
  status :: real
  statusText :: string
  text_body :: string
  json_body :: "error + jsv"

type_synonym transport = "string \<Rightarrow> error + response"

fun ToString :: "runtime \<Rightarrow> jsv \<Rightarrow> error + string" where
  "ToString rt JUndefined = Inr ''undefined''"
| "ToString rt JNull = Inr ''null''"
| "ToString rt (JBool b) = Inr (if b then ''true'' else ''false'')"
| "ToString rt (JNum x) = Inr (number_to_string rt x)"
| "ToString rt JNaN = Inr ''NaN''"
| "ToString rt (JStr s) = Inr s"
| "ToString rt v = (case object_to_string rt v of None \<Rightarrow> Inl TypeError | Some s \<Rightarrow> Inr s)"

fun ToNumber :: "runtime \<Rightarrow> jsv \<Rightarrow> error + real option" where
  "ToNumber rt JUndefined = Inr None"
| "ToNumber rt JNull = Inr (Some 0)"
| "ToNumber rt (JBool b) = Inr (Some (if b then 1 else 0))"
| "ToNumber rt (JNum x) = Inr (Some x)"
| "ToNumber rt JNaN = Inr None"
| "ToNumber rt (JStr s) = Inr (string_to_number rt s)"
| "ToNumber rt v = (case object_to_number rt v of None \<Rightarrow> Inl TypeError | Some n \<Rightarrow> Inr n)"

definition js_le :: "runtime \<Rightarrow> jsv \<Rightarrow> real \<Rightarrow> error + bool" where
  \<comment> \<open>\<open>a <= b\<close> for a number \<open>b\<close>: false when \<open>a\<close> converts to \<open>NaN\<close>\<close>
  "js_le rt a b =
     and_then (ToNumber rt a) (\<lambda>n. Inr (case n of None \<Rightarrow> False | Some x \<Rightarrow> x \<le> b))"

definition to_integer :: "real \<Rightarrow> int" where \<comment> \<open>truncation towards zero\<close>
  "to_integer x = (if x < 0 then \<lceil>x\<rceil> else \<lfloor>x\<rfloor>)"

definition slice0 :: "'a list \<Rightarrow> real \<Rightarrow> 'a list" where
  \<comment> \<open>\<open>xs.slice(0, e)\<close> of a string or an array: a negative \<open>e\<close> counts from the end\<close>
  "slice0 xs e =
     (let len = int (length xs);
          rel = to_integer e;
          final = (if rel < 0 then max (len + rel) 0 else min rel len)
      in take (nat final) xs)"

section \<open>The records of the two scrapers\<close>

text \<open>
  The interfaces of the source are erased at run time. A field that is assigned a value
  read from the payload holds whatever the payload holds there and has the type \<open>jsv\<close>;
  a field that is always built as a string, a boolean or a list has that type. Field
  names carry the name of their record, since several records share \<open>id\<close>, \<open>title\<close>,
  \<open>url\<close> and \<open>results\<close>.
\<close>

record RedditPost =
  post_id :: jsv
  post_title :: jsv
  post_subreddit :: jsv
  post_author :: jsv
  post_score :: jsv
  post_num_comments :: jsv
  post_url :: jsv
  post_permalink :: string
  post_created_utc :: jsv
  post_body_preview :: jsv
  post_is_self :: jsv
  post_thumbnail :: jsv
  post_link_flair_text :: jsv
  post_upvote_ratio :: jsv
  post_awards :: jsv

record RedditComment =
  comment_id :: jsv
  comment_author :: jsv
  comment_body :: jsv
  comment_score :: jsv
  comment_created_utc :: jsv
  comment_depth :: jsv
  comment_is_op :: bool
  comment_awards :: jsv
  comment_replies_count :: jsv


record reddit_search =
  reddit_results :: "RedditPost list"
  reddit_total_results :: nat

record seller_info =
  seller_name :: string
  seller_joined :: "string option"
  seller_rating :: "string option"
  seller_profile_url :: "string option"

record MarketplaceListing =
  listing_id :: jsv
  listing_title :: jsv
  listing_price :: jsv
  listing_currency :: jsv
  listing_location :: string
  listing_seller :: seller_info
  listing_condition :: "string option"
  listing_posted_at :: string
  listing_images :: "string list"
  listing_url :: string
  listing_description :: string
  listing_category :: "string option"
  listing_is_available :: bool

record MarketplaceCategory =
  category_id :: string
  category_name :: string
  category_url :: string

record marketplace_search =
  results :: "MarketplaceListing list"
  total_results :: nat

record new_listings =
  new_results :: "MarketplaceListing list"
  since :: string

section \<open>The Reddit scraper\<close>

definition REDDIT_BASE :: string where
  "REDDIT_BASE = ''https://www.reddit.com''"

text \<open>
  \<open>truncate(text, max)\<close>. The callers pass \<open>d.selftext || ''\<close> and \<open>d.body || ''\<close>, which
  is a string when the field is one, and any other truthy value of the payload otherwise;
  on a number or an object the call of \<open>text.slice\<close> throws.
\<close>

definition truncate :: "runtime \<Rightarrow> jsv \<Rightarrow> real \<Rightarrow> error + jsv" where
  "truncate rt text maxlen =
     (if \<not> truthy text then Inr (js_or text (JStr []))
      else
        and_then (js_le rt (jget text ''length'') maxlen) (\<lambda>short.
          if short then Inr (js_or text (JStr []))
          else
            (case text of
               JStr s \<Rightarrow> Inr (JStr (slice0 s maxlen @ ''...''))
             | JArr xs \<Rightarrow>
                 and_then (ToString rt (JArr (slice0 xs maxlen))) (\<lambda>s. Inr (JStr (s @ ''...'')))
             | _ \<Rightarrow> Inl TypeError)))"

definition parsePost :: "runtime \<Rightarrow> jsv \<Rightarrow> error + RedditPost" where
  "parsePost rt data =
     (let d = js_or (jget_opt data ''data'') data in
      if nullish d then Inl TypeError
      else
        and_then
          (if truthy (jget d ''subreddit_name_prefixed'')
           then Inr (jget d ''subreddit_name_prefixed'')
           else and_then (ToString rt (js_or (jget d ''subreddit'') (JStr [])))
                  (\<lambda>s. Inr (JStr (''r/'' @ s)))) (\<lambda>subreddit.
        and_then
          (if truthy (jget d ''permalink'')
           then and_then (ToString rt (jget d ''permalink''))
                  (\<lambda>s. Inr (''https://reddit.com'' @ s))
           else Inr []) (\<lambda>permalink.
        and_then (truncate rt (js_or (jget d ''selftext'') (JStr [])) 500) (\<lambda>body_preview.
        Inr \<lparr> post_id = js_or (jget d ''id'') (js_or (jget d ''name'') (JStr [])),
              post_title = js_or (jget d ''title'') (JStr []),
              post_subreddit = subreddit,
              post_author = js_or (jget d ''author'') (JStr ''[deleted]''),
              post_score = nullish_or (jget d ''score'') (JNum 0),
              post_num_comments = nullish_or (jget d ''num_comments'') (JNum 0),
              post_url = js_or (jget d ''url'') (JStr []),
              post_permalink = permalink,
              post_created_utc = nullish_or (jget d ''created_utc'') (JNum 0),
              post_body_preview = body_preview,
              post_is_self = nullish_or (jget d ''is_self'') (JBool False),
              post_thumbnail =
                (if truthy (jget d ''thumbnail'') \<and> jget d ''thumbnail'' \<noteq> JStr ''self''
                    \<and> jget d ''thumbnail'' \<noteq> JStr ''default''
                 then jget d ''thumbnail'' else JNull),
              post_link_flair_text = js_or (jget d ''link_flair_text'') JNull,
              post_upvote_ratio = nullish_or (jget d ''upvote_ratio'') (JNum 0),
              post_awards = nullish_or (jget d ''total_awards_received'') (JNum 0) \<rparr>))))"

definition parseComment :: "runtime \<Rightarrow> jsv \<Rightarrow> jsv \<Rightarrow> error + RedditComment" where
  "parseComment rt data opAuthor =
     (let d = js_or (jget_opt data ''data'') data in
      if nullish d then Inl TypeError
      else
        and_then (truncate rt (js_or (jget d ''body'') (JStr [])) 1000) (\<lambda>body.
        Inr \<lparr> comment_id = js_or (jget d ''id'') (js_or (jget d ''name'') (JStr [])),
              comment_author = js_or (jget d ''author'') (JStr ''[deleted]''),
              comment_body = body,
              comment_score = nullish_or (jget d ''score'') (JNum 0),
              comment_created_utc = nullish_or (jget d ''created_utc'') (JNum 0),
              comment_depth = nullish_or (jget d ''depth'') (JNum 0),
              comment_is_op = strict_eq (jget d ''author'') opAuthor,
              comment_awards = nullish_or (jget d ''total_awards_received'') (JNum 0),
              comment_replies_count =
                (if typeof_object (jget d ''replies'')
                 then nullish_or
                        (jget_opt (jget_opt (jget_opt (jget d ''replies'') ''data'') ''children'')
                           ''length'')
                        (JNum 0)
                 else JNum 0) \<rparr>))"

text \<open>
  \<open>flattenComments(children, opAuthor, maxDepth)\<close>: the \<open>for\<close> loop over \<open>children\<close> is
  the recursion on the list, the call on \<open>replies\<close> is the nested recursion. An exception
  (a child that is \<open>null\<close>, a failing conversion) ends the whole call. The default
  \<open>maxDepth = 3\<close> is written out at the one call that omits it, in \<open>getThread\<close>.
\<close>

lemma map_of_size:
  "map_of kvs k = Some v \<Longrightarrow> size v < Suc (size_list (size_prod (\<lambda>x. 0) size) kvs)"
  by (induction kvs) (auto split: if_splits)

lemma jget_size: "size (jget v k) \<le> size v"
  by (cases v) (auto split: option.splits dest: map_of_size less_imp_le)

lemma jget_opt_size: "size (jget_opt v k) \<le> size v"
  by (simp add: jget_opt_def jget_size)

definition replies_of :: "jsv \<Rightarrow> jsv" where
  \<comment> \<open>\<open>child.data?.replies?.data?.children\<close>, for a \<open>child\<close> that is not nullish\<close>
  "replies_of child =
     jget_opt (jget_opt (jget_opt (jget child ''data'') ''replies'') ''data'') ''children''"

lemma replies_of_size: "replies_of child = JArr xs \<Longrightarrow> size_list size xs < size child"
proof -
  assume a: "replies_of child = JArr xs"
  have "size (replies_of child) \<le> size child"
    unfolding replies_of_def
    by (meson jget_opt_size jget_size order_trans)
  with a show ?thesis by simp
qed

function flattenComments :: "runtime \<Rightarrow> jsv list \<Rightarrow> jsv \<Rightarrow> real \<Rightarrow> error + RedditComment list" where
  "flattenComments rt [] opAuthor maxDepth = Inr []"
| "flattenComments rt (child # rest) opAuthor maxDepth =
     (if nullish child then Inl TypeError
      else if jget child ''kind'' = JStr ''more'' then flattenComments rt rest opAuthor maxDepth
      else
        (case parseComment rt child opAuthor of
           Inl e \<Rightarrow> Inl e
         | Inr comment \<Rightarrow>
             (case js_le rt (comment_depth comment) maxDepth of
                Inl e \<Rightarrow> Inl e
              | Inr shallow \<Rightarrow>
                  (case (case replies_of child of
                           JArr replies \<Rightarrow> flattenComments rt replies opAuthor maxDepth
                         | _ \<Rightarrow> Inr []) of
                     Inl e \<Rightarrow> Inl e
                   | Inr nested \<Rightarrow>
                       (case flattenComments rt rest opAuthor maxDepth of
                          Inl e \<Rightarrow> Inl e
                        | Inr later \<Rightarrow>
                            Inr ((if shallow then [comment] else []) @ nested @ later))))))"
  by pat_completeness auto
termination
  by (relation "measure (\<lambda>(rt, children, opAuthor, maxDepth). size_list size children)")
     (auto dest: replies_of_size)

fun parse_posts :: "runtime \<Rightarrow> jsv list \<Rightarrow> error + RedditPost list" where
  \<comment> \<open>\<open>children.map(parsePost)\<close> on the elements of an array\<close>
  "parse_posts rt [] = Inr []"
| "parse_posts rt (x # xs) =
     and_then (parsePost rt x) (\<lambda>p. and_then (parse_posts rt xs) (\<lambda>ps. Inr (p # ps)))"

definition search_url ::
    "runtime \<Rightarrow> string \<Rightarrow> string \<Rightarrow> string \<Rightarrow> string \<Rightarrow> real \<Rightarrow> string" where
  "search_url rt query subreddit sortParam time limit =
     (let sub = (if subreddit = ''all'' then [] else ''/r/'' @ encodeURIComponent rt subreddit)
      in REDDIT_BASE @ sub @ ''/search.json?q='' @ encodeURIComponent rt query
         @ ''&sort='' @ sortParam @ ''&t='' @ time
         @ ''&limit='' @ number_to_string rt (min limit 100)
         @ ''&restrict_sr='' @ (if subreddit \<noteq> ''all'' then ''on'' else ''off''))"

definition searchReddit ::
    "runtime \<Rightarrow> transport \<Rightarrow> string \<Rightarrow> string \<Rightarrow> string \<Rightarrow> string \<Rightarrow> real \<Rightarrow> error + reddit_search" where
  "searchReddit rt proxyFetch query subreddit sortParam time limit =
     (case proxyFetch (search_url rt query subreddit sortParam time limit) of
        Inl e \<Rightarrow> Inl e
      | Inr response \<Rightarrow>
          if \<not> ok response then Inl (FetchError ''Reddit search failed'' (status response))
          else
            (case json_body response of
               Inl e \<Rightarrow> Inl e
             | Inr json \<Rightarrow>
                 and_then
                   (case js_or (jget_opt (jget_opt json ''data'') ''children'') (JArr []) of
                      JArr children \<Rightarrow> parse_posts rt children
                    | _ \<Rightarrow> Inl TypeError)
                   (\<lambda>posts. Inr \<lparr> reddit_results = posts,
                                    reddit_total_results = length posts \<rparr>)))"




subsection \<open>The traversal the specification describes\<close>

text \<open>
  The specification of the flattener: a depth-first pre-order walk over the loaded tree
  that skips continuation markers (and does not descend into them), normalises every
  other node, and keeps the record exactly when its depth is at most \<open>maxDepth\<close>. \<open>walk\<close>
  lists the nodes of that walk in pre-order; it does not look at \<open>maxDepth\<close>.
\<close>

definition is_continuation :: "jsv \<Rightarrow> bool" where
  "is_continuation n = (\<not> nullish n \<and> jget n ''kind'' = JStr ''more'')"

definition loaded_children :: "jsv \<Rightarrow> jsv list" where
  "loaded_children n =
     (if nullish n then [] else (case replies_of n of JArr xs \<Rightarrow> xs | _ \<Rightarrow> []))"

lemma loaded_children_size: "size_list size (loaded_children n) \<le> size n"
  by (auto simp: loaded_children_def split: jsv.splits dest: replies_of_size less_imp_le)

function walk :: "jsv list \<Rightarrow> jsv list" where
  "walk [] = []"
| "walk (n # rest) =
     (if is_continuation n then walk rest else n # walk (loaded_children n) @ walk rest)"
  by pat_completeness auto
termination
  by (relation "measure (size_list size)")
     (auto intro: le_imp_less_Suc trans_le_add1 loaded_children_size)

definition visit :: "runtime \<Rightarrow> jsv \<Rightarrow> real \<Rightarrow> jsv \<Rightarrow> error + RedditComment list" where
  "visit rt opAuthor maxDepth n =
     and_then (parseComment rt n opAuthor) (\<lambda>c.
     and_then (js_le rt (comment_depth c) maxDepth) (\<lambda>shallow.
     Inr (if shallow then [c] else [])))"

fun collect :: "('a \<Rightarrow> error + 'b list) \<Rightarrow> 'a list \<Rightarrow> error + 'b list" where
  "collect f [] = Inr []"
| "collect f (n # ns) =
     and_then (f n) (\<lambda>xs. and_then (collect f ns) (\<lambda>ys. Inr (xs @ ys)))"

definition visitable :: "runtime \<Rightarrow> jsv \<Rightarrow> real \<Rightarrow> jsv \<Rightarrow> bool" where
  \<comment> \<open>normalising the node and comparing its depth throws no exception\<close>
  "visitable rt opAuthor maxDepth n =
     (case visit rt opAuthor maxDepth n of Inl e \<Rightarrow> False | Inr cs \<Rightarrow> True)"

definition within_depth :: "runtime \<Rightarrow> jsv \<Rightarrow> real \<Rightarrow> jsv \<Rightarrow> bool" where
  \<comment> \<open>the node's normalised depth is \<open>\<le> maxDepth\<close>\<close>
  "within_depth rt opAuthor maxDepth n =
     (case parseComment rt n opAuthor of
        Inl e \<Rightarrow> False
      | Inr c \<Rightarrow> js_le rt (comment_depth c) maxDepth = Inr True)"

definition tree_size :: "jsv list \<Rightarrow> nat" where
  "tree_size children = size_list size children"

section \<open>The Facebook Marketplace scraper\<close>

definition num_of :: "real option \<Rightarrow> jsv" where
  "num_of n = (case n of None \<Rightarrow> JNaN | Some x \<Rightarrow> JNum x)"

subsection \<open>The regular expressions of the source\<close>

definition relay_rx :: rx where
  \<comment> \<open>\<open>/\{"marketplace_search\S*?"\s*:\s*({.+?})\s*,\s*"extensions"/s\<close>\<close>
  \<open>relay_rx =
     seq [Lit ''{"marketplace_search'', Many False 0 nonspace, Lit ''"'', Many True 0 space,
          Lit '':'', Many True 0 space,
          Grp (seq [Lit ''{'', Many False 1 any_char, Lit ''}'']),
          Many True 0 space, Lit '','', Many True 0 space, Lit ''"extensions"'']\<close>

definition comet_rx :: rx where
  \<comment> \<open>\<open>/data-sjs>({.+?})<\/script>/s\<close>\<close>
  \<open>comet_rx =
     seq [Lit ''data-sjs>'', Grp (seq [Lit ''{'', Many False 1 any_char, Lit ''}'']),
          Lit ''</script>'']\<close>

definition listingRegex :: rx where
  \<comment> \<open>\<open>/"listing_id":"(\d+)"[^}]*"listing_title":"([^"]+)"[^}]*"listing_price":\{[^}]*"amount":"([\d.]+)"[^}]*"currency":"([^"]+)"/g\<close>\<close>
  \<open>listingRegex =
     seq [Lit ''"listing_id":"'', Grp (Many True 1 digit), Lit ''"'', Many True 0 not_brace,
          Lit ''"listing_title":"'', Grp (Many True 1 not_quote), Lit ''"'', Many True 0 not_brace,
          Lit ''"listing_price":{'', Many True 0 not_brace,
          Lit ''"amount":"'', Grp (Many True 1 digit_dot), Lit ''"'', Many True 0 not_brace,
          Lit ''"currency":"'', Grp (Many True 1 not_quote), Lit ''"'']\<close>

definition title_rx :: rx where
  \<comment> \<open>\<open>/<title>([^<]+)<\/title>/\<close>\<close>
  "title_rx = seq [Lit ''<title>'', Grp (Many True 1 not_lt), Lit ''</title>'']"

definition price_rx :: rx where
  \<comment> \<open>\<open>/"amount":"([\d.]+)"/\<close>\<close>
  \<open>price_rx = seq [Lit ''"amount":"'', Grp (Many True 1 digit_dot), Lit ''"'']\<close>

definition curr_rx :: rx where
  \<comment> \<open>\<open>/"currency":"([A-Z]+)"/\<close>\<close>
  \<open>curr_rx = seq [Lit ''"currency":"'', Grp (Many True 1 upper), Lit ''"'']\<close>

definition desc_rx :: rx where
  \<comment> \<open>\<open>/"redacted_description":\{"text":"([^"]+)"/\<close>\<close>
  \<open>desc_rx = seq [Lit ''"redacted_description":{"text":"'', Grp (Many True 1 not_quote), Lit ''"'']\<close>

definition location_rx :: rx where
  \<comment> \<open>\<open>/"marketplace_listing_location":\{"reverse_geocode":\{"city":"([^"]+)"/\<close>\<close>
  \<open>location_rx =
     seq [Lit ''"marketplace_listing_location":{"reverse_geocode":{"city":"'',
          Grp (Many True 1 not_quote), Lit ''"'']\<close>

definition condition_rx :: rx where
  \<comment> \<open>\<open>/"condition_text":"([^"]+)"/\<close>\<close>
  \<open>condition_rx = seq [Lit ''"condition_text":"'', Grp (Many True 1 not_quote), Lit ''"'']\<close>

definition seller_rx :: rx where
  \<comment> \<open>\<open>/"marketplace_listing_seller":\{"name":"([^"]+)"/\<close>\<close>
  \<open>seller_rx =
     seq [Lit ''"marketplace_listing_seller":{"name":"'', Grp (Many True 1 not_quote), Lit ''"'']\<close>

definition item_id_rx :: rx where
  \<comment> \<open>\<open>/item\/(\d+)/\<close>\<close>
  "item_id_rx = seq [Lit ''item/'', Grp (Many True 1 digit)]"

definition long_digits_rx :: rx where
  \<comment> \<open>\<open>/(\d{10,})/\<close>\<close>
  "long_digits_rx = Grp (Many True 10 digit)"

definition imageRegex :: rx where
  \<comment> \<open>\<open>/"image":\{"uri":"([^"]+marketplace[^"]+)"/g\<close>\<close>
  \<open>imageRegex =
     seq [Lit ''"image":{"uri":"'',
          Grp (seq [Many True 1 not_quote, Lit ''marketplace'', Many True 1 not_quote]),
          Lit ''"'']\<close>

definition backslash :: char where
  "backslash = CHR 0x5C"

definition unescape_rx :: rx where
  \<comment> \<open>the expression of \<open>imgMatch[1].replace(..., '/')\<close>: between its delimiters stand an
      escaped backslash, an escaped slash, an escaped backslash, an escaped slash and the
      letter \<open>g\<close>; it has no flags\<close>
  "unescape_rx = Lit [backslash, CHR ''/'', backslash, CHR ''/'', CHR ''g'']"

definition postTime_rx :: rx where
  \<comment> \<open>\<open>/"creation_time":(\d+)/\<close>\<close>
  \<open>postTime_rx = seq [Lit ''"creation_time":'', Grp (Many True 1 digit)]\<close>

definition brand_suffix_rx :: rx where
  \<comment> \<open>\<open>/\s*[|-]\s*Facebook.*$/\<close>\<close>
  "brand_suffix_rx =
     seq [Many True 0 space, Chr bar_dash, Many True 0 space, Lit ''Facebook'',
          Many True 0 not_newline, Eos]"

definition cardRegex :: rx where
  \<comment> \<open>\<open>/marketplace\/item\/(\d+)/g\<close>\<close>
  "cardRegex = seq [Lit ''marketplace/item/'', Grp (Many True 1 digit)]"

definition catRegex :: rx where
  \<comment> \<open>\<open>/marketplace\/category\/([^"?]+)"[^>]*>\s*(?:<[^>]+>)*([^<]+)/g\<close>\<close>
  \<open>catRegex =
     seq [Lit ''marketplace/category/'', Grp (Many True 1 not_quote_qmark), Lit ''"'',
          Many True 0 not_gt, Lit ''>'', Many True 0 space,
          Star (seq [Lit ''<'', Many True 1 not_gt, Lit ''>'']),
          Grp (Many True 1 not_lt)]\<close>

definition trailing_slash_rx :: rx where
  \<comment> \<open>\<open>/\/$/\<close>\<close>
  "trailing_slash_rx = seq [Lit ''/'', Eos]"

text \<open>
  A global expression in a \<open>while ((m = re.exec(html)) !== null)\<close> loop resumes after
  the previous match. Each of the looped expressions starts with a literal, so a match is
  never empty and the rest of the document gets shorter.
\<close>

lemma listingRegex_progress:
  "rfind listingRegex pre s = Some (p, gs, rest) \<Longrightarrow> length rest < length s"
  using rfind_progress [of listingRegex pre s p gs rest] by (simp add: listingRegex_def)

lemma imageRegex_progress:
  "rfind imageRegex pre s = Some (p, gs, rest) \<Longrightarrow> length rest < length s"
  using rfind_progress [of imageRegex pre s p gs rest] by (simp add: imageRegex_def)

lemma cardRegex_progress:
  "rfind cardRegex pre s = Some (p, gs, rest) \<Longrightarrow> length rest < length s"
  using rfind_progress [of cardRegex pre s p gs rest] by (simp add: cardRegex_def)

lemma catRegex_progress:
  "rfind catRegex pre s = Some (p, gs, rest) \<Longrightarrow> length rest < length s"
  using rfind_progress [of catRegex pre s p gs rest] by (simp add: catRegex_def)

subsection \<open>extractFbData\<close>

function listing_scan :: "runtime \<Rightarrow> string \<Rightarrow> jsv list" where
  \<comment> \<open>the \<open>while\<close> loop of the fallback: one object per match of \<open>listingRegex\<close>\<close>
  "listing_scan rt html =
     (case rfind listingRegex [] html of
        None \<Rightarrow> []
      | Some (pre, gs, rest) \<Rightarrow>
          JObj [(''id'', JStr (gs ! 0)), (''title'', JStr (gs ! 1)),
                (''price'', num_of (parse_float rt (gs ! 2))), (''currency'', JStr (gs ! 3))]
          # listing_scan rt rest)"
  by pat_completeness auto
termination
  by (relation "measure (\<lambda>(rt, html). length html)") (auto dest: listingRegex_progress)

declare listing_scan.simps [simp del]

definition extractFbData :: "runtime \<Rightarrow> string \<Rightarrow> jsv" where
  "extractFbData rt html =
     (case (case group1 relay_rx html of None \<Rightarrow> None | Some g \<Rightarrow> json_parse rt g) of
        Some v \<Rightarrow> v
      | None \<Rightarrow>
          (case (case group1 comet_rx html of None \<Rightarrow> None | Some g \<Rightarrow> json_parse rt g) of
             Some v \<Rightarrow> v
           | None \<Rightarrow>
               (let listings = listing_scan rt html
                in if 0 < length listings then JObj [(''extracted_listings'', JArr listings)]
                   else JNull)))"

subsection \<open>parseListingFromHtml\<close>

function image_scan :: "string \<Rightarrow> string list \<Rightarrow> string list" where
  \<comment> \<open>\<open>while ((imgMatch = imageRegex.exec(html)) !== null && images.length < 10)\<close>\<close>
  "image_scan html images =
     (case rfind imageRegex [] html of
        None \<Rightarrow> images
      | Some (pre, gs, rest) \<Rightarrow>
          if length images < 10
          then image_scan rest (images @ [replace_first unescape_rx ''/'' (gs ! 0)])
          else images)"
  by pat_completeness auto
termination
  by (relation "measure (\<lambda>(html, images). length html)") (auto dest: imageRegex_progress)

declare image_scan.simps [simp del]

definition parseListingFromHtml :: "runtime \<Rightarrow> string \<Rightarrow> string \<Rightarrow> error + MarketplaceListing" where
  "parseListingFromHtml rt html url =
     (let titleMatch = group1 title_rx html;
          priceMatch = group1 price_rx html;
          currMatch = group1 curr_rx html;
          descMatch = group1 desc_rx html;
          locationMatch = group1 location_rx html;
          conditionMatch = group1 condition_rx html;
          sellerMatch = group1 seller_rx html;
          idMatch = (case group1 item_id_rx url of
                       Some g \<Rightarrow> Some g
                     | None \<Rightarrow> group1 long_digits_rx url);
          images = image_scan html [];
          postTimeMatch = group1 postTime_rx html
      in and_then
           (case postTimeMatch of
              None \<Rightarrow> Inr []
            | Some g \<Rightarrow>
                (case parse_int rt g of
                   None \<Rightarrow> Inl RangeError
                 | Some n \<Rightarrow>
                     (case date_to_iso rt (float_times rt n 1000) of
                        None \<Rightarrow> Inl RangeError
                      | Some stamp \<Rightarrow> Inr stamp)))
           (\<lambda>posted_at.
              Inr \<lparr> listing_id = JStr (case idMatch of Some g \<Rightarrow> g | None \<Rightarrow> []),
                    listing_title =
                      JStr (case titleMatch of
                              Some g \<Rightarrow> trim (replace_first brand_suffix_rx [] g)
                            | None \<Rightarrow> []),
                    listing_price =
                      (case priceMatch of Some g \<Rightarrow> num_of (parse_float rt g) | None \<Rightarrow> JNum 0),
                    listing_currency = JStr (case currMatch of Some g \<Rightarrow> g | None \<Rightarrow> ''USD''),
                    listing_location = (case locationMatch of Some g \<Rightarrow> g | None \<Rightarrow> []),
                    listing_seller =
                      \<lparr> seller_name = (case sellerMatch of Some g \<Rightarrow> g | None \<Rightarrow> []),
                        seller_joined = None, seller_rating = None, seller_profile_url = None \<rparr>,
                    listing_condition = conditionMatch,
                    listing_posted_at = posted_at,
                    listing_images = images,
                    listing_url = url,
                    listing_description = (case descMatch of Some g \<Rightarrow> g | None \<Rightarrow> []),
                    listing_category = None,
                    listing_is_available =
                      (\<not> includes_str html ''This listing is no longer available'') \<rparr>))"

definition getListingDetails :: "runtime \<Rightarrow> transport \<Rightarrow> string \<Rightarrow> error + MarketplaceListing" where
  "getListingDetails rt proxyFetch listingId =
     (let url = ''https://www.facebook.com/marketplace/item/'' @ listingId
      in case proxyFetch url of
           Inl e \<Rightarrow> Inl e
         | Inr response \<Rightarrow>
             if \<not> ok response
             then Inl (FetchError (''FB Marketplace listing fetch failed for '' @ listingId)
                         (status response))
             else parseListingFromHtml rt (text_body response) url)"

subsection \<open>searchMarketplace, getNewListings, getCategories\<close>

text \<open>
  The two operations share their collecting code word for word, up to the location
  (\<open>location || ''\<close> in \<open>searchMarketplace\<close>, \<open>''\<close> in \<open>getNewListings\<close>); it is modelled
  once, as \<open>collect_listings\<close>. \<open>found\<close> is the array \<open>results\<close> of the source while it
  is filled. \<open>limit\<close> is the number the body works with (20 when the caller omits it).
\<close>

definition partial_listing :: "jsv \<Rightarrow> jsv \<Rightarrow> jsv \<Rightarrow> jsv \<Rightarrow> string \<Rightarrow> string \<Rightarrow> MarketplaceListing" where
  \<comment> \<open>the object literal both branches of the assembler push: the four values read from the
      document, the location and the item URL; every other field at its default\<close>
  "partial_listing i t p c loc url =
     \<lparr> listing_id = i, listing_title = t, listing_price = p, listing_currency = c,
       listing_location = loc,
       listing_seller = \<lparr> seller_name = [], seller_joined = None, seller_rating = None,
                          seller_profile_url = None \<rparr>,
       listing_condition = None, listing_posted_at = [], listing_images = [],
       listing_url = url, listing_description = [], listing_category = None,
       listing_is_available = True \<rparr>"

definition item_url :: "string \<Rightarrow> string" where
  "item_url i = ''https://www.facebook.com/marketplace/item/'' @ i"

definition sliced_items :: "jsv \<Rightarrow> real \<Rightarrow> error + jsv list" where
  \<comment> \<open>the items of \<open>for (const item of v.slice(0, limit))\<close>; \<open>v\<close> is truthy\<close>
  "sliced_items v limit =
     (case v of
        JArr xs \<Rightarrow> Inr (slice0 xs limit)
      | JStr s \<Rightarrow> Inr (map (\<lambda>c. JStr [c]) (slice0 s limit))
      | _ \<Rightarrow> Inl TypeError)"

fun structured_listings :: "runtime \<Rightarrow> string \<Rightarrow> jsv list \<Rightarrow> error + MarketplaceListing list" where
  \<comment> \<open>the loop of the structured branch\<close>
  "structured_listings rt loc [] = Inr []"
| "structured_listings rt loc (item # items) =
     (if nullish item then Inl TypeError
      else
        and_then (ToString rt (jget item ''id'')) (\<lambda>id_text.
        and_then (structured_listings rt loc items) (\<lambda>rest.
        Inr (partial_listing (jget item ''id'') (jget item ''title'') (jget item ''price'')
               (jget item ''currency'') loc (item_url id_text) # rest))))"

function card_scan ::
    "real \<Rightarrow> string \<Rightarrow> string \<Rightarrow> string set \<Rightarrow> MarketplaceListing list \<Rightarrow> MarketplaceListing list" where
  \<comment> \<open>\<open>while ((cardMatch = cardRegex.exec(html)) !== null && results.length < limit)\<close>\<close>
  "card_scan limit loc html seenIds found =
     (case rfind cardRegex [] html of
        None \<Rightarrow> found
      | Some (pre, gs, rest) \<Rightarrow>
          if real (length found) < limit
          then
            (let listingId = gs ! 0
             in if listingId \<in> seenIds then card_scan limit loc rest seenIds found
                else card_scan limit loc rest (insert listingId seenIds)
                       (found @ [partial_listing (JStr listingId) (JStr []) (JNum 0)
                                   (JStr ''USD'') loc (item_url listingId)]))
          else found)"
  by pat_completeness auto
termination
  by (relation "measure (\<lambda>(limit, loc, html, seenIds, found). length html)")
     (auto dest: cardRegex_progress)

declare card_scan.simps [simp del]

definition collect_listings :: "runtime \<Rightarrow> string \<Rightarrow> real \<Rightarrow> string \<Rightarrow> error + MarketplaceListing list" where
  \<comment> \<open>the \<open>if (fbData?.extracted_listings) ... else ...\<close> of both operations\<close>
  "collect_listings rt loc limit html =
     (let fbData = extractFbData rt html
      in if truthy (jget_opt fbData ''extracted_listings'')
         then and_then (sliced_items (jget_opt fbData ''extracted_listings'') limit)
                (structured_listings rt loc)
         else Inr (card_scan limit loc html {} []))"

definition js_round :: "real \<Rightarrow> real" where
  \<comment> \<open>\<open>Math.round\<close>: the nearest integer, a tie going up\<close>
  "js_round x = real_of_int \<lfloor>x + 1 / 2\<rfloor>"

definition marketplace_search_url ::
    "runtime \<Rightarrow> string \<Rightarrow> real option \<Rightarrow> real option \<Rightarrow> string option \<Rightarrow> string" where
  "marketplace_search_url rt query minPrice maxPrice radius =
     ''https://www.facebook.com/marketplace/search/?'' @
     url_search_params rt
       ([(''query'', query)]
        @ (case minPrice of
             None \<Rightarrow> []
           | Some p \<Rightarrow> [(''minPrice'', number_to_string rt (js_round (float_times rt p 100)))])
        @ (case maxPrice of
             None \<Rightarrow> []
           | Some p \<Rightarrow> [(''maxPrice'', number_to_string rt (js_round (float_times rt p 100)))])
        @ (case radius of
             None \<Rightarrow> []
           | Some r \<Rightarrow> if r = [] then [] else [(''radius'', replace_first (Lit ''mi'') [] r)]))"

definition searchMarketplace ::
    "runtime \<Rightarrow> transport \<Rightarrow> string \<Rightarrow> string option \<Rightarrow> real option \<Rightarrow> real option \<Rightarrow>
     string option \<Rightarrow> real \<Rightarrow> error + marketplace_search" where
  "searchMarketplace rt proxyFetch query location minPrice maxPrice radius limit =
     (case proxyFetch (marketplace_search_url rt query minPrice maxPrice radius) of
        Inl e \<Rightarrow> Inl e
      | Inr response \<Rightarrow>
          if \<not> ok response
          then Inl (FetchError ''FB Marketplace search failed'' (status response))
          else
            and_then
              (collect_listings rt (case location of None \<Rightarrow> [] | Some l \<Rightarrow> l) limit
                 (text_body response))
              (\<lambda>found. Inr \<lparr> results = slice0 found limit, total_results = length found \<rparr>))"

definition new_listings_url :: "runtime \<Rightarrow> string \<Rightarrow> real \<Rightarrow> string" where
  "new_listings_url rt query sinceHours =
     ''https://www.facebook.com/marketplace/search/?'' @
     url_search_params rt
       [(''query'', query),
        (''daysSinceListed'', number_to_string rt
           (max 1 (real_of_int \<lceil>float_divide rt sinceHours 24\<rceil>))),
        (''sortBy'', ''creation_time_descend'')]"

definition getNewListings ::
    "runtime \<Rightarrow> transport \<Rightarrow> string \<Rightarrow> real \<Rightarrow> real \<Rightarrow> error + new_listings" where
  "getNewListings rt proxyFetch query sinceHours limit =
     (case proxyFetch (new_listings_url rt query sinceHours) of
        Inl e \<Rightarrow> Inl e
      | Inr response \<Rightarrow>
          if \<not> ok response
          then Inl (FetchError ''FB Marketplace new listings failed'' (status response))
          else
            (case date_to_iso rt
                    (float_minus rt (date_now rt) (float_times rt sinceHours 3600000)) of
               None \<Rightarrow> Inl RangeError
             | Some sinceTime \<Rightarrow>
                 and_then (collect_listings rt [] limit (text_body response))
                   (\<lambda>found. Inr \<lparr> new_results = slice0 found limit, since = sinceTime \<rparr>)))"

function category_scan ::
    "string \<Rightarrow> string set \<Rightarrow> MarketplaceCategory list \<Rightarrow> MarketplaceCategory list" where
  \<comment> \<open>\<open>while ((match = catRegex.exec(html)) !== null)\<close>\<close>
  "category_scan html seen categories =
     (case rfind catRegex [] html of
        None \<Rightarrow> categories
      | Some (pre, gs, rest) \<Rightarrow>
          (let slug = replace_first trailing_slash_rx [] (gs ! 0)
           in if slug \<in> seen then category_scan rest seen categories
              else category_scan rest (insert slug seen)
                     (categories @
                        [\<lparr> category_id = slug, category_name = trim (gs ! 1),
                           category_url =
                             ''https://www.facebook.com/marketplace/category/'' @ slug \<rparr>])))"
  by pat_completeness auto
termination
  by (relation "measure (\<lambda>(html, seen, categories). length html)")
     (auto dest: catRegex_progress)

declare category_scan.simps [simp del]

definition getCategories :: "transport \<Rightarrow> string option \<Rightarrow> error + MarketplaceCategory list" where
  "getCategories proxyFetch location =
     (case proxyFetch ''https://www.facebook.com/marketplace/categories/'' of
        Inl e \<Rightarrow> Inl e
      | Inr response \<Rightarrow>
          if \<not> ok response
          then Inl (FetchError ''FB Marketplace categories failed'' (status response))
          else Inr (category_scan (text_body response) {} []))"

section \<open>Fixtures\<close>

text \<open>Nodes as the comments endpoint wraps them, for the worked examples below.\<close>

definition listing_of :: "jsv list \<Rightarrow> jsv" where
  "listing_of children =
     JObj [(''kind'', JStr ''Listing''), (''data'', JObj [(''children'', JArr children)])]"

definition comment_node :: "string \<Rightarrow> real \<Rightarrow> jsv list \<Rightarrow> jsv" where
  "comment_node i d replies =
     JObj [(''kind'', JStr ''t1''),
           (''data'', JObj [(''id'', JStr i), (''depth'', JNum d),
                            (''replies'', listing_of replies)])]"

definition more_node :: "jsv list \<Rightarrow> jsv" where
  \<comment> \<open>a continuation marker; the argument is what a marker might carry as replies\<close>
  "more_node replies =
     JObj [(''kind'', JStr ''more''),
           (''data'', JObj [(''id'', JStr ''m''), (''depth'', JNum 0),
                            (''replies'', listing_of replies)])]"

definition post_node :: "string \<Rightarrow> string \<Rightarrow> real \<Rightarrow> jsv" where
  "post_node i author n =
     JObj [(''kind'', JStr ''t3''),
           (''data'', JObj [(''id'', JStr i), (''author'', JStr author),
                            (''num_comments'', JNum n)])]"

definition plain_comment :: "string \<Rightarrow> real \<Rightarrow> real \<Rightarrow> RedditComment" where
  \<comment> \<open>the record of \<open>comment_node i d replies\<close> with \<open>n\<close> replies (\<open>i\<close> not empty)\<close>
  "plain_comment i d n =
     \<lparr> comment_id = JStr i, comment_author = JStr ''[deleted]'', comment_body = JStr [],
       comment_score = JNum 0, comment_created_utc = JNum 0, comment_depth = JNum d,
       comment_is_op = False, comment_awards = JNum 0, comment_replies_count = JNum n \<rparr>"

definition plain_post :: "string \<Rightarrow> string \<Rightarrow> real \<Rightarrow> RedditPost" where
  \<comment> \<open>the record of \<open>post_node i author n\<close> (\<open>i\<close> and \<open>author\<close> not empty)\<close>
  "plain_post i author n =
     \<lparr> post_id = JStr i, post_title = JStr [], post_subreddit = JStr ''r/'',
       post_author = JStr author, post_score = JNum 0, post_num_comments = JNum n,
       post_url = JStr [], post_permalink = [], post_created_utc = JNum 0,
       post_body_preview = JStr [], post_is_self = JBool False, post_thumbnail = JNull,
       post_link_flair_text = JNull, post_upvote_ratio = JNum 0, post_awards = JNum 0 \<rparr>"

definition json_response :: "jsv \<Rightarrow> response" where
  "json_response json =
     \<lparr> ok = True, status = 200, statusText = ''OK'', text_body = [], json_body = Inr json \<rparr>"

definition html_response :: "string \<Rightarrow> response" where
  "html_response html =
     \<lparr> ok = True, status = 200, statusText = ''OK'', text_body = html,
       json_body = Inl SyntaxError \<rparr>"

definition depth_chain :: "jsv list" where
  \<comment> \<open>one node at each of the depths 0 to 4, each the only reply of the one before\<close>
  "depth_chain =
     [comment_node ''c0'' 0 [comment_node ''c1'' 1 [comment_node ''c2'' 2
        [comment_node ''c3'' 3 [comment_node ''c4'' 4 []]]]]]"

definition nested_payload :: jsv where
  \<comment> \<open>a data payload that itself has a member named \<open>data\<close>\<close>
  "nested_payload = JObj [(''id'', JStr ''outer''), (''data'', JObj [(''id'', JStr ''inner'')])]"

definition two_posts :: response where
  "two_posts = json_response (listing_of [post_node ''a'' ''alice'' 0, post_node ''b'' ''bob'' 0])"

definition answer_at :: "string \<Rightarrow> response \<Rightarrow> transport" where
  \<comment> \<open>a transport that answers one URL and fails on every other\<close>
  "answer_at expected resp url = (if url = expected then Inr resp else Inl TransportError)"


definition escaped_uri :: string where
  "escaped_uri =
     ''https:'' @ [backslash, CHR ''/'', backslash, CHR ''/''] @ ''cdn.example''
     @ [backslash, CHR ''/''] @ ''marketplace'' @ [backslash, CHR ''/''] @ ''photo1.jpg''"

definition image_doc :: string where
  \<open>image_doc = ''<script>{"image":{"uri":"'' @ escaped_uri @ ''"}}</script>''\<close>

definition listing_block :: "string \<Rightarrow> string \<Rightarrow> string" where
  \<open>listing_block i t =
     ''{"listing_id":"'' @ i @ ''","listing_title":"'' @ t
     @ ''","listing_price":{"amount":"50","currency":"USD"}}''\<close>

definition card_link :: "string \<Rightarrow> string" where
  \<open>card_link i = ''<a href="/marketplace/item/'' @ i @ ''/">item</a>''\<close>

definition item_page :: string where
  "item_page = ''https://www.facebook.com/marketplace/item/123''"

definition duplicate_doc :: string where
  "duplicate_doc = listing_block ''111'' ''Bike'' @ listing_block ''111'' ''Bike''"

definition cards_doc :: string where
  \<comment> \<open>a page without embedded state: three item links, two of them to the same item\<close>
  "cards_doc = card_link ''1'' @ card_link ''1'' @ card_link ''2''"

definition card_listing :: "string \<Rightarrow> MarketplaceListing" where
  \<comment> \<open>the record the markup scan pushes for an item link, with no location\<close>
  "card_listing i =
     partial_listing (JStr i) (JStr []) (JNum 0) (JStr ''USD'') [] (item_url i)"

definition block_listing :: "runtime \<Rightarrow> string \<Rightarrow> string \<Rightarrow> MarketplaceListing" where
  \<comment> \<open>the record the structured branch pushes for \<open>listing_block i t\<close>, with no location\<close>
  "block_listing rt i t =
     partial_listing (JStr i) (JStr t) (num_of (parse_float rt ''50'')) (JStr ''USD'') []
       (item_url i)"

section \<open>Properties of the Reddit scraper\<close>

lemma to_integer_of_nat: "to_integer (real n) = int n"
  by (simp add: to_integer_def)

lemma slice0_nat: "slice0 xs (real n) = take n xs"
  by (simp add: slice0_def to_integer_of_nat Let_def min_def)

text \<open>
  Claim C4. For every string and every cap that is a natural number (500 for a post's
  \<open>body_preview\<close>, 1000 for a comment's \<open>body\<close>): a string longer than the cap comes
  back as its first \<open>cap\<close> characters followed by \<open>...\<close>, of length \<open>cap + 3\<close>; a
  string of length at most the cap comes back unchanged.
\<close>

theorem truncate_cap:
  "(cap < length s \<longrightarrow>
      truncate rt (JStr s) (real cap) = Inr (JStr (take cap s @ ''...''))
      \<and> length (take cap s @ ''...'') = cap + 3)
   \<and> (length s \<le> cap \<longrightarrow> truncate rt (JStr s) (real cap) = Inr (JStr s))"
  by (auto simp: truncate_def js_le_def slice0_nat js_or_def)

theorem truncate_cap_witness:
  "\<forall>rt. truncate rt (JStr (replicate 501 CHR ''a'')) 500
           = Inr (JStr (replicate 500 CHR ''a'' @ ''...''))
      \<and> length (replicate 500 CHR ''a'' @ ''...'') = 503
      \<and> truncate rt (JStr ''short'') 1000 = Inr (JStr ''short'')"
proof
  fix rt
  show "truncate rt (JStr (replicate 501 CHR ''a'')) 500
           = Inr (JStr (replicate 500 CHR ''a'' @ ''...''))
      \<and> length (replicate 500 CHR ''a'' @ ''...'') = 503
      \<and> truncate rt (JStr ''short'') 1000 = Inr (JStr ''short'')"
    using truncate_cap [of 500 "replicate 501 CHR ''a''" rt] truncate_cap [of 1000 "''short''" rt]
    by simp
qed

lemma collect_append:
  "collect f (xs @ ys) = and_then (collect f xs) (\<lambda>a. and_then (collect f ys) (\<lambda>b. Inr (a @ b)))"
proof (induction xs)
  case Nil
  show ?case by (cases "collect f ys") auto
next
  case (Cons x xs)
  show ?case
    by (cases "f x"; cases "collect f xs"; cases "collect f ys") (auto simp: Cons)
qed

lemma visit_nullish: "nullish n \<Longrightarrow> visit rt opAuthor maxDepth n = Inl TypeError"
  by (cases n) (auto simp: visit_def parseComment_def js_or_def jget_opt_def)

lemma flattenComments_walk:
  "flattenComments rt children opAuthor maxDepth = collect (visit rt opAuthor maxDepth) (walk children)"
proof (induction rt children opAuthor maxDepth rule: flattenComments.induct)
  case (1 rt opAuthor maxDepth)
  show ?case by simp
next
  case (2 rt child rest opAuthor maxDepth)
  show ?case
  proof (cases "nullish child")
    case True
    then show ?thesis
      by (simp add: is_continuation_def visit_nullish)
  next
    case nn: False
    show ?thesis
    proof (cases "jget child ''kind'' = JStr ''more''")
      case True
      with nn 2 show ?thesis by (simp add: is_continuation_def)
    next
      case nm: False
      show ?thesis
      proof (cases "parseComment rt child opAuthor")
        case (Inl e)
        with nn nm show ?thesis by (simp add: is_continuation_def visit_def)
      next
        case (Inr comment)
        note pc = this
        show ?thesis
        proof (cases "js_le rt (comment_depth comment) maxDepth")
          case (Inl e)
          with nn nm pc show ?thesis by (simp add: is_continuation_def visit_def)
        next
          case (Inr shallow)
          show ?thesis
            using 2 nn nm pc Inr
            by (cases "replies_of child")
               (auto simp: is_continuation_def visit_def collect_append loaded_children_def
                     split: sum.splits)
        qed
      qed
    qed
  qed
qed

lemma visit_cases:
  "parseComment rt n opAuthor = Inl e \<Longrightarrow> visit rt opAuthor maxDepth n = Inl e"
  "parseComment rt n opAuthor = Inr c \<Longrightarrow> js_le rt (comment_depth c) maxDepth = Inl e
     \<Longrightarrow> visit rt opAuthor maxDepth n = Inl e"
  "parseComment rt n opAuthor = Inr c \<Longrightarrow> js_le rt (comment_depth c) maxDepth = Inr b
     \<Longrightarrow> visit rt opAuthor maxDepth n = Inr (if b then [c] else [])"
  by (simp_all add: visit_def)

lemma within_depth_cases:
  "parseComment rt n opAuthor = Inl e \<Longrightarrow> \<not> within_depth rt opAuthor maxDepth n"
  "parseComment rt n opAuthor = Inr c \<Longrightarrow> js_le rt (comment_depth c) maxDepth = Inl e
     \<Longrightarrow> \<not> within_depth rt opAuthor maxDepth n"
  "parseComment rt n opAuthor = Inr c \<Longrightarrow> js_le rt (comment_depth c) maxDepth = Inr b
     \<Longrightarrow> within_depth rt opAuthor maxDepth n = b"
  by (simp_all add: within_depth_def)

lemma collect_visit_iff:
  "(collect (visit rt opAuthor maxDepth) ns = Inr out) =
     (list_all (visitable rt opAuthor maxDepth) ns
      \<and> list_all2 (\<lambda>c n. parseComment rt n opAuthor = Inr c) out
            (filter (within_depth rt opAuthor maxDepth) ns))"
proof (induction ns arbitrary: out)
  case Nil
  show ?case by auto
next
  case (Cons n ns)
  let ?v = "visit rt opAuthor maxDepth"
  show ?case
  proof (cases "parseComment rt n opAuthor")
    case (Inl e)
    then show ?thesis by (simp add: visitable_def visit_cases(1))
  next
    case (Inr c)
    note pc = this
    show ?thesis
    proof (cases "js_le rt (comment_depth c) maxDepth")
      case (Inl e)
      with pc show ?thesis by (simp add: visitable_def visit_cases(2))
    next
      case (Inr b)
      note v = visit_cases(3) [OF pc Inr] and w = within_depth_cases(3) [OF pc Inr]
      have vis: "visitable rt opAuthor maxDepth n" by (simp add: visitable_def v)
      show ?thesis
      proof (cases "collect ?v ns")
        case (Inl e)
        with Cons [of out] have "\<not> (list_all (visitable rt opAuthor maxDepth) ns
           \<and> list_all2 (\<lambda>c n. parseComment rt n opAuthor = Inr c) out
                 (filter (within_depth rt opAuthor maxDepth) ns))" for out
          using Cons by simp
        with Inl v w pc show ?thesis
          by (cases b) (auto simp: list_all2_Cons2)
      next
        case ys: (Inr ys)
        have IH: "(ys = zs) = (list_all (visitable rt opAuthor maxDepth) ns
           \<and> list_all2 (\<lambda>c n. parseComment rt n opAuthor = Inr c) zs
                 (filter (within_depth rt opAuthor maxDepth) ns))" for zs
          using Cons [of zs] ys by simp
        show ?thesis
        proof (cases b)
          case True
          with ys v w vis pc IH show ?thesis
            by (auto simp: list_all2_Cons2)
        next
          case False
          with ys v w vis IH [of out] show ?thesis by auto
        qed
      qed
    qed
  qed
qed

text \<open>
  Claim C2. \<open>flattenComments\<close> returns a list exactly when every node of the pre-order
  walk over the loaded tree can be normalised and compared, and the list then holds the
  normalised records of exactly those walked nodes whose depth is \<open>\<le> maxDepth\<close>, in
  pre-order. The walk itself does not depend on \<open>maxDepth\<close>: the children of a node
  are walked whether or not the node was kept.
\<close>

theorem flattenComments_depth_filter:
  "(flattenComments rt children opAuthor maxDepth = Inr out) =
     (list_all (visitable rt opAuthor maxDepth) (walk children)
      \<and> list_all2 (\<lambda>c n. parseComment rt n opAuthor = Inr c) out
            (filter (within_depth rt opAuthor maxDepth) (walk children)))"
  by (simp add: flattenComments_walk collect_visit_iff)

lemma walk_depth_chain:
  "walk depth_chain =
     [comment_node ''c0'' 0 [comment_node ''c1'' 1 [comment_node ''c2'' 2
        [comment_node ''c3'' 3 [comment_node ''c4'' 4 []]]]],
      comment_node ''c1'' 1 [comment_node ''c2'' 2
        [comment_node ''c3'' 3 [comment_node ''c4'' 4 []]]],
      comment_node ''c2'' 2 [comment_node ''c3'' 3 [comment_node ''c4'' 4 []]],
      comment_node ''c3'' 3 [comment_node ''c4'' 4 []],
      comment_node ''c4'' 4 []]"
  by (simp add: depth_chain_def comment_node_def listing_of_def is_continuation_def
        loaded_children_def replies_of_def jget_opt_def)

lemma flatten_depth_chain:
  "flattenComments rt depth_chain (JStr ''alice'') 3 =
     Inr [plain_comment ''c0'' 0 1, plain_comment ''c1'' 1 1, plain_comment ''c2'' 2 1,
          plain_comment ''c3'' 3 1]"
  by (simp add: depth_chain_def comment_node_def listing_of_def plain_comment_def
        parseComment_def truncate_def js_or_def nullish_or_def js_le_def
        replies_of_def jget_opt_def)

theorem flattenComments_depth_filter_witness:
  "\<forall>rt. flattenComments rt depth_chain (JStr ''alice'') 3 =
           Inr [plain_comment ''c0'' 0 1, plain_comment ''c1'' 1 1, plain_comment ''c2'' 2 1,
                plain_comment ''c3'' 3 1]
      \<and> length (walk depth_chain) = 5
      \<and> list_all (visitable rt (JStr ''alice'') 3) (walk depth_chain)
      \<and> list_all2 (\<lambda>c n. parseComment rt n (JStr ''alice'') = Inr c)
            [plain_comment ''c0'' 0 1, plain_comment ''c1'' 1 1, plain_comment ''c2'' 2 1,
             plain_comment ''c3'' 3 1]
            (filter (within_depth rt (JStr ''alice'') 3) (walk depth_chain))"
proof
  fix rt
  let ?out = "[plain_comment ''c0'' 0 1, plain_comment ''c1'' 1 1, plain_comment ''c2'' 2 1,
               plain_comment ''c3'' 3 1]"
  have ev: "flattenComments rt depth_chain (JStr ''alice'') 3 = Inr ?out"
    by (rule flatten_depth_chain)
  have len: "length (walk depth_chain) = 5"
    by (simp add: walk_depth_chain)
  from ev flattenComments_depth_filter [of rt depth_chain "JStr ''alice''" 3 ?out]
  have "list_all (visitable rt (JStr ''alice'') 3) (walk depth_chain)
      \<and> list_all2 (\<lambda>c n. parseComment rt n (JStr ''alice'') = Inr c) ?out
            (filter (within_depth rt (JStr ''alice'') 3) (walk depth_chain))"
    by blast
  with ev len show "flattenComments rt depth_chain (JStr ''alice'') 3 = Inr ?out
      \<and> length (walk depth_chain) = 5
      \<and> list_all (visitable rt (JStr ''alice'') 3) (walk depth_chain)
      \<and> list_all2 (\<lambda>c n. parseComment rt n (JStr ''alice'') = Inr c) ?out
            (filter (within_depth rt (JStr ''alice'') 3) (walk depth_chain))"
    by blast
qed

text \<open>
  Claim C5. A continuation marker (a node of kind \<open>more\<close>) contributes nothing and is
  not traversed: dropping every marker from a list of children, with whatever the marker
  carries, leaves the result of \<open>flattenComments\<close> (its records or its exception)
  unchanged. The function calls itself on every nested list, so this holds at every level.
\<close>

theorem flattenComments_skips_continuation:
  "flattenComments rt children opAuthor maxDepth =
     flattenComments rt (filter (\<lambda>n. \<not> is_continuation n) children) opAuthor maxDepth"
proof (induction children)
  case Nil
  show ?case by simp
next
  case (Cons child rest)
  show ?case
  proof (cases "is_continuation child")
    case True
    then show ?thesis using Cons by (simp add: is_continuation_def)
  next
    case False
    then have f: "filter (\<lambda>n. \<not> is_continuation n) (child # rest)
        = child # filter (\<lambda>n. \<not> is_continuation n) rest"
      by simp
    show ?thesis unfolding f by (simp only: flattenComments.simps Cons [symmetric])
  qed
qed

theorem flattenComments_skips_continuation_witness:
  "\<forall>rt. flattenComments rt
          [more_node [comment_node ''hidden'' 0 []], comment_node ''c0'' 0 [more_node [JNull]]]
          (JStr ''alice'') 3
        = Inr [plain_comment ''c0'' 0 1]"
proof
  fix rt
  have "flattenComments rt
          (filter (\<lambda>n. \<not> is_continuation n)
             [more_node [comment_node ''hidden'' 0 []], comment_node ''c0'' 0 [more_node [JNull]]])
          (JStr ''alice'') 3
        = Inr [plain_comment ''c0'' 0 1]"
    by (simp add: more_node_def comment_node_def listing_of_def plain_comment_def
        is_continuation_def parseComment_def truncate_def js_or_def nullish_or_def js_le_def
        replies_of_def jget_opt_def)
  then show "flattenComments rt
          [more_node [comment_node ''hidden'' 0 []], comment_node ''c0'' 0 [more_node [JNull]]]
          (JStr ''alice'') 3
        = Inr [plain_comment ''c0'' 0 1]"
    using flattenComments_skips_continuation
      [of rt "[more_node [comment_node ''hidden'' 0 []], comment_node ''c0'' 0 [more_node [JNull]]]"
          "JStr ''alice''" 3]
    by simp
qed

lemma flattenComments_rel_decreases:
  "flattenComments_rel y x \<Longrightarrow> tree_size (fst (snd y)) < tree_size (fst (snd x))"
  by (induction rule: flattenComments_rel.induct)
     (auto simp: tree_size_def dest: replies_of_size)

text \<open>
  Claim C9. \<open>flattenComments\<close> terminates on every input: every argument is in the
  accessible part of the recursion's call relation, and each recursive call (on the rest
  of the list, or on the nested replies of a child) is on a list of strictly smaller tree
  size. \<open>maxDepth\<close> plays no part in the argument.
\<close>

theorem flattenComments_terminates:
  "flattenComments_dom (rt, children, opAuthor, maxDepth)
   \<and> (\<forall>y. flattenComments_rel y (rt, children, opAuthor, maxDepth)
          \<longrightarrow> tree_size (fst (snd y)) < tree_size children)"
proof
  have "wfp flattenComments_rel"
    by (rule wfp_if_convertible_to_nat [of _ "\<lambda>x. tree_size (fst (snd x))"])
       (rule flattenComments_rel_decreases)
  then show "flattenComments_dom (rt, children, opAuthor, maxDepth)"
    by (rule accp_wfpD)
  show "\<forall>y. flattenComments_rel y (rt, children, opAuthor, maxDepth)
          \<longrightarrow> tree_size (fst (snd y)) < tree_size children"
    using flattenComments_rel_decreases by fastforce
qed

theorem flattenComments_terminates_witness:
  "\<forall>rt. flattenComments_dom (rt, depth_chain, JStr ''alice'', 3)
     \<and> flattenComments_rel
         (rt, [comment_node ''c1'' 1 [comment_node ''c2'' 2
                 [comment_node ''c3'' 3 [comment_node ''c4'' 4 []]]]], JStr ''alice'', 3)
         (rt, depth_chain, JStr ''alice'', 3)
     \<and> tree_size [comment_node ''c1'' 1 [comment_node ''c2'' 2
                 [comment_node ''c3'' 3 [comment_node ''c4'' 4 []]]]]
         < tree_size depth_chain"
proof
  fix rt
  let ?inner = "[comment_node ''c1'' 1 [comment_node ''c2'' 2
                 [comment_node ''c3'' 3 [comment_node ''c4'' 4 []]]]]"
  let ?c0 = "comment_node ''c0'' 0 ?inner"
  have pc: "parseComment rt ?c0 (JStr ''alice'') = Inr (plain_comment ''c0'' 0 1)"
    by (simp add: comment_node_def listing_of_def plain_comment_def
        parseComment_def truncate_def js_or_def nullish_or_def jget_opt_def)
  have rel: "flattenComments_rel (rt, ?inner, JStr ''alice'', 3) (rt, ?c0 # [], JStr ''alice'', 3)"
    by (rule flattenComments_rel.intros(2) [OF _ _ pc])
       (simp_all add: comment_node_def listing_of_def plain_comment_def js_le_def
          replies_of_def jget_opt_def)
  have dc: "depth_chain = [?c0]" by (simp add: depth_chain_def)
  from flattenComments_terminates [of rt depth_chain "JStr ''alice''" 3]
  have dom: "flattenComments_dom (rt, depth_chain, JStr ''alice'', 3)"
    and dec: "flattenComments_rel (rt, ?inner, JStr ''alice'', 3) (rt, depth_chain, JStr ''alice'', 3)
        \<longrightarrow> tree_size (fst (snd (rt, ?inner, JStr ''alice'', 3::real))) < tree_size depth_chain"
    by blast+
  from rel dec have "tree_size ?inner < tree_size depth_chain"
    unfolding dc by simp
  with dom rel show "flattenComments_dom (rt, depth_chain, JStr ''alice'', 3)
     \<and> flattenComments_rel (rt, ?inner, JStr ''alice'', 3) (rt, depth_chain, JStr ''alice'', 3)
     \<and> tree_size ?inner < tree_size depth_chain"
    unfolding dc by simp
qed

text \<open>
  Claim C6, as stated, fails: a payload that itself has a truthy member named \<open>data\<close> is
  unwrapped once more when it is passed directly, and read as it is when it is passed
  wrapped.
\<close>

theorem parse_wrapped_counterexample:
  "\<forall>rt. parsePost rt (JObj [(''kind'', JStr ''t3''), (''data'', nested_payload)])
          \<noteq> parsePost rt nested_payload
      \<and> parseComment rt (JObj [(''kind'', JStr ''t1''), (''data'', nested_payload)]) (JStr ''alice'')
          \<noteq> parseComment rt nested_payload (JStr ''alice'')"
  by (simp add: nested_payload_def parsePost_def parseComment_def truncate_def js_or_def
        nullish_or_def jget_opt_def)

lemma unwrap_wrapped:
  assumes "\<not> nullish d" and "\<not> truthy (jget d ''data'')" and "truthy d"
  shows "js_or (jget_opt (JObj [(''kind'', k), (''data'', d)]) ''data'') (JObj [(''kind'', k), (''data'', d)])
       = js_or (jget_opt d ''data'') d"
  using assms by (simp add: js_or_def jget_opt_def)

text \<open>
  Claim C6, amended. For every payload \<open>d\<close> that is neither \<open>null\<close> nor \<open>undefined\<close>
  and has no truthy member named \<open>data\<close>, every wrapper kind and every \<open>opAuthor\<close>:
  \<open>parsePost\<close> and \<open>parseComment\<close> give the same result (the same record, or the same
  exception) on the wrapped node \<open>{kind, data: d}\<close> as on \<open>d\<close> itself.
\<close>

theorem parse_wrapped_eq:
  assumes "\<not> nullish d" and "\<not> truthy (jget d ''data'')"
  shows "parsePost rt (JObj [(''kind'', k), (''data'', d)]) = parsePost rt d
       \<and> parseComment rt (JObj [(''kind'', k), (''data'', d)]) opAuthor = parseComment rt d opAuthor"
proof (cases "truthy d")
  case True
  from unwrap_wrapped [OF assms True] show ?thesis
    by (simp add: parsePost_def parseComment_def)
next
  case False
  with assms(1) show ?thesis
    by (cases d)
       (simp_all add: parsePost_def parseComment_def js_or_def jget_opt_def nullish_or_def
          truncate_def Let_def)
qed

theorem parse_wrapped_eq_witness:
  "\<forall>rt. \<not> nullish (JObj [(''id'', JStr ''abc''), (''author'', JStr ''alice'')])
      \<and> \<not> truthy (jget (JObj [(''id'', JStr ''abc''), (''author'', JStr ''alice'')]) ''data'')
      \<and> parsePost rt (JObj [(''kind'', JStr ''t3''),
                             (''data'', JObj [(''id'', JStr ''abc''), (''author'', JStr ''alice'')])])
          = parsePost rt (JObj [(''id'', JStr ''abc''), (''author'', JStr ''alice'')])
      \<and> parseComment rt (JObj [(''kind'', JStr ''t3''),
                             (''data'', JObj [(''id'', JStr ''abc''), (''author'', JStr ''alice'')])])
            (JStr ''alice'')
          = parseComment rt (JObj [(''id'', JStr ''abc''), (''author'', JStr ''alice'')]) (JStr ''alice'')
      \<and> parsePost rt (JObj [(''id'', JStr ''abc''), (''author'', JStr ''alice'')])
          = Inr (plain_post ''abc'' ''alice'' 0)"
proof
  fix rt
  let ?d = "JObj [(''id'', JStr ''abc''), (''author'', JStr ''alice'')]"
  have h1: "\<not> nullish ?d" and h2: "\<not> truthy (jget ?d ''data'')" by simp_all
  have ev: "parsePost rt ?d = Inr (plain_post ''abc'' ''alice'' 0)"
    by (simp add: parsePost_def plain_post_def truncate_def js_or_def nullish_or_def jget_opt_def)
  from h1 h2 ev parse_wrapped_eq [OF h1 h2, of rt "JStr ''t3''" "JStr ''alice''"]
  show "\<not> nullish ?d \<and> \<not> truthy (jget ?d ''data'')
      \<and> parsePost rt (JObj [(''kind'', JStr ''t3''), (''data'', ?d)]) = parsePost rt ?d
      \<and> parseComment rt (JObj [(''kind'', JStr ''t3''), (''data'', ?d)]) (JStr ''alice'')
          = parseComment rt ?d (JStr ''alice'')
      \<and> parsePost rt ?d = Inr (plain_post ''abc'' ''alice'' 0)"
    by blast
qed

lemma and_then_Inr_iff: "(and_then m f = Inr y) = (\<exists>x. m = Inr x \<and> f x = Inr y)"
  by (cases m) auto

lemma parse_posts_Inr:
  "parse_posts rt xs = Inr ps \<Longrightarrow> list_all2 (\<lambda>p c. parsePost rt c = Inr p) ps xs"
proof (induction xs arbitrary: ps)
  case Nil
  then show ?case by simp
next
  case (Cons x xs)
  then show ?case by (auto simp: and_then_Inr_iff)
qed

text \<open>
  Claim C10. When \<open>searchReddit\<close> returns: the one request went to the search URL whose
  \<open>limit\<close> parameter is \<open>min limit 100\<close> (and \<open>limit\<close> stands nowhere else in it); the
  results are the posts of all the elements of the response's \<open>data.children\<close>, in
  order and as many as there are children, with no cap at \<open>limit\<close>; \<open>total_results\<close> is
  their number; and any other limit with the same \<open>min limit 100\<close> gives the same result.
\<close>

theorem searchReddit_maps_all_children:
  assumes "searchReddit rt proxyFetch query subreddit sortParam time limit = Inr r"
  shows "(\<exists>response json children.
           proxyFetch
             (''https://www.reddit.com''
              @ (if subreddit = ''all'' then [] else ''/r/'' @ encodeURIComponent rt subreddit)
              @ ''/search.json?q='' @ encodeURIComponent rt query
              @ ''&sort='' @ sortParam @ ''&t='' @ time
              @ ''&limit='' @ number_to_string rt (min limit 100)
              @ ''&restrict_sr='' @ (if subreddit = ''all'' then ''off'' else ''on''))
             = Inr response
         \<and> json_body response = Inr json
         \<and> js_or (jget_opt (jget_opt json ''data'') ''children'') (JArr []) = JArr children
         \<and> list_all2 (\<lambda>p c. parsePost rt c = Inr p) (reddit_results r) children
         \<and> length (reddit_results r) = length children
         \<and> reddit_total_results r = length (reddit_results r))
       \<and> (\<forall>limit'. min limit' 100 = min limit 100 \<longrightarrow>
             searchReddit rt proxyFetch query subreddit sortParam time limit' = Inr r)"
proof
  let ?url = "''https://www.reddit.com''
              @ (if subreddit = ''all'' then [] else ''/r/'' @ encodeURIComponent rt subreddit)
              @ ''/search.json?q='' @ encodeURIComponent rt query
              @ ''&sort='' @ sortParam @ ''&t='' @ time
              @ ''&limit='' @ number_to_string rt (min limit 100)
              @ ''&restrict_sr='' @ (if subreddit = ''all'' then ''off'' else ''on'')"
  have u: "search_url rt query subreddit sortParam time limit = ?url"
    by (simp add: search_url_def REDDIT_BASE_def Let_def)
  from assms obtain response where f: "proxyFetch ?url = Inr response"
    unfolding searchReddit_def u by (auto split: sum.splits)
  with assms obtain json where j: "json_body response = Inr json" and okr: "ok response"
    unfolding searchReddit_def u by (auto split: sum.splits if_splits)
  with assms f obtain children posts where
      c: "js_or (jget_opt (jget_opt json ''data'') ''children'') (JArr []) = JArr children"
      and p: "parse_posts rt children = Inr posts"
      and r: "r = \<lparr> reddit_results = posts, reddit_total_results = length posts \<rparr>"
    unfolding searchReddit_def u by (auto simp: and_then_Inr_iff split: jsv.splits)
  from parse_posts_Inr [OF p] have la: "list_all2 (\<lambda>p c. parsePost rt c = Inr p) posts children" .
  then have "length posts = length children" by (rule list_all2_lengthD)
  with f j c la r show "\<exists>response json children.
           proxyFetch ?url = Inr response
         \<and> json_body response = Inr json
         \<and> js_or (jget_opt (jget_opt json ''data'') ''children'') (JArr []) = JArr children
         \<and> list_all2 (\<lambda>p c. parsePost rt c = Inr p) (reddit_results r) children
         \<and> length (reddit_results r) = length children
         \<and> reddit_total_results r = length (reddit_results r)"
    by auto
  show "\<forall>limit'. min limit' 100 = min limit 100 \<longrightarrow>
             searchReddit rt proxyFetch query subreddit sortParam time limit' = Inr r"
  proof (intro allI impI)
    fix limit' :: real
    assume "min limit' 100 = min limit 100"
    then have "search_url rt query subreddit sortParam time limit'
        = search_url rt query subreddit sortParam time limit"
      by (simp add: search_url_def)
    with assms show "searchReddit rt proxyFetch query subreddit sortParam time limit' = Inr r"
      by (simp add: searchReddit_def)
  qed
qed

lemma parse_post_node:
  "i \<noteq> [] \<Longrightarrow> a \<noteq> [] \<Longrightarrow> parsePost rt (post_node i a n) = Inr (plain_post i a n)"
  by (simp add: post_node_def plain_post_def parsePost_def truncate_def js_or_def
        nullish_or_def jget_opt_def)

lemma answer_at_same: "answer_at u resp u = Inr resp"
  by (simp add: answer_at_def)

lemma search_two_posts:
  "searchReddit rt
     (answer_at
        (''https://www.reddit.com/search.json?q='' @ encodeURIComponent rt ''cats''
         @ ''&sort=relevance&t=week&limit='' @ number_to_string rt 1 @ ''&restrict_sr=off'')
        two_posts)
     ''cats'' ''all'' ''relevance'' ''week'' 1 =
     Inr \<lparr> reddit_results = [plain_post ''a'' ''alice'' 0, plain_post ''b'' ''bob'' 0],
           reddit_total_results = 2 \<rparr>"
proof -
  have u: "search_url rt ''cats'' ''all'' ''relevance'' ''week'' 1 =
      ''https://www.reddit.com/search.json?q='' @ encodeURIComponent rt ''cats''
      @ ''&sort=relevance&t=week&limit='' @ number_to_string rt 1 @ ''&restrict_sr=off''"
    by (simp add: search_url_def REDDIT_BASE_def)
  show ?thesis
    unfolding searchReddit_def u answer_at_same
    by (simp add: two_posts_def json_response_def listing_of_def js_or_def jget_opt_def
          parse_post_node)
qed

lemma search_two_posts_clamped:
  "searchReddit rt
     (answer_at
        (''https://www.reddit.com/r/'' @ encodeURIComponent rt ''aww''
         @ ''/search.json?q='' @ encodeURIComponent rt ''cats''
         @ ''&sort=new&t=day&limit='' @ number_to_string rt 100 @ ''&restrict_sr=on'')
        two_posts)
     ''cats'' ''aww'' ''new'' ''day'' 250 =
     Inr \<lparr> reddit_results = [plain_post ''a'' ''alice'' 0, plain_post ''b'' ''bob'' 0],
           reddit_total_results = 2 \<rparr>"
proof -
  have u: "search_url rt ''cats'' ''aww'' ''new'' ''day'' 250 =
      ''https://www.reddit.com/r/'' @ encodeURIComponent rt ''aww''
      @ ''/search.json?q='' @ encodeURIComponent rt ''cats''
      @ ''&sort=new&t=day&limit='' @ number_to_string rt 100 @ ''&restrict_sr=on''"
    by (simp add: search_url_def REDDIT_BASE_def)
  show ?thesis
    unfolding searchReddit_def u answer_at_same
    by (simp add: two_posts_def json_response_def listing_of_def js_or_def jget_opt_def
          parse_post_node)
qed

theorem searchReddit_maps_all_children_witness:
  "\<forall>rt.
     searchReddit rt
       (answer_at
          (''https://www.reddit.com/search.json?q='' @ encodeURIComponent rt ''cats''
           @ ''&sort=relevance&t=week&limit='' @ number_to_string rt 1 @ ''&restrict_sr=off'')
          two_posts)
       ''cats'' ''all'' ''relevance'' ''week'' 1 =
       Inr \<lparr> reddit_results = [plain_post ''a'' ''alice'' 0, plain_post ''b'' ''bob'' 0],
             reddit_total_results = 2 \<rparr>
     \<and> (1::real) < real (length [plain_post ''a'' ''alice'' 0, plain_post ''b'' ''bob'' 0])
     \<and> searchReddit rt
         (answer_at
            (''https://www.reddit.com/r/'' @ encodeURIComponent rt ''aww''
             @ ''/search.json?q='' @ encodeURIComponent rt ''cats''
             @ ''&sort=new&t=day&limit='' @ number_to_string rt 100 @ ''&restrict_sr=on'')
            two_posts)
         ''cats'' ''aww'' ''new'' ''day'' 250 =
         Inr \<lparr> reddit_results = [plain_post ''a'' ''alice'' 0, plain_post ''b'' ''bob'' 0],
               reddit_total_results = 2 \<rparr>
     \<and> min (1000::real) 100 = min 250 100
     \<and> searchReddit rt
         (answer_at
            (''https://www.reddit.com/r/'' @ encodeURIComponent rt ''aww''
             @ ''/search.json?q='' @ encodeURIComponent rt ''cats''
             @ ''&sort=new&t=day&limit='' @ number_to_string rt 100 @ ''&restrict_sr=on'')
            two_posts)
         ''cats'' ''aww'' ''new'' ''day'' 1000 =
         Inr \<lparr> reddit_results = [plain_post ''a'' ''alice'' 0, plain_post ''b'' ''bob'' 0],
               reddit_total_results = 2 \<rparr>
     \<and> (\<exists>response json children.
           answer_at
             (''https://www.reddit.com/search.json?q='' @ encodeURIComponent rt ''cats''
              @ ''&sort=relevance&t=week&limit='' @ number_to_string rt 1 @ ''&restrict_sr=off'')
             two_posts
             (''https://www.reddit.com/search.json?q='' @ encodeURIComponent rt ''cats''
              @ ''&sort=relevance&t=week&limit='' @ number_to_string rt 1 @ ''&restrict_sr=off'')
             = Inr response
         \<and> json_body response = Inr json
         \<and> js_or (jget_opt (jget_opt json ''data'') ''children'') (JArr []) = JArr children
         \<and> length children = 2
         \<and> list_all2 (\<lambda>p c. parsePost rt c = Inr p)
               [plain_post ''a'' ''alice'' 0, plain_post ''b'' ''bob'' 0] children)"
proof
  fix rt :: runtime
  let ?r = "\<lparr> reddit_results = [plain_post ''a'' ''alice'' 0, plain_post ''b'' ''bob'' 0],
             reddit_total_results = 2 \<rparr>"
  let ?u1 = "''https://www.reddit.com/search.json?q='' @ encodeURIComponent rt ''cats''
             @ ''&sort=relevance&t=week&limit='' @ number_to_string rt 1 @ ''&restrict_sr=off''"
  let ?u2 = "''https://www.reddit.com/r/'' @ encodeURIComponent rt ''aww''
             @ ''/search.json?q='' @ encodeURIComponent rt ''cats''
             @ ''&sort=new&t=day&limit='' @ number_to_string rt 100 @ ''&restrict_sr=on''"
  have ev1: "searchReddit rt (answer_at ?u1 two_posts) ''cats'' ''all'' ''relevance'' ''week'' 1
      = Inr ?r"
    by (rule search_two_posts)
  have ev2: "searchReddit rt (answer_at ?u2 two_posts) ''cats'' ''aww'' ''new'' ''day'' 250
      = Inr ?r"
    by (rule search_two_posts_clamped)
  have m: "min (1000::real) 100 = min 250 100" by simp
  from searchReddit_maps_all_children [OF ev2] m
  have ev3: "searchReddit rt (answer_at ?u2 two_posts) ''cats'' ''aww'' ''new'' ''day'' 1000
      = Inr ?r"
    by blast
  from searchReddit_maps_all_children [OF ev1]
  have ex: "\<exists>response json children.
           answer_at ?u1 two_posts ?u1 = Inr response
         \<and> json_body response = Inr json
         \<and> js_or (jget_opt (jget_opt json ''data'') ''children'') (JArr []) = JArr children
         \<and> length children = 2
         \<and> list_all2 (\<lambda>p c. parsePost rt c = Inr p)
               [plain_post ''a'' ''alice'' 0, plain_post ''b'' ''bob'' 0] children"
    by (auto simp: answer_at_same)
  from ev1 ev2 m ev3 ex
  show "searchReddit rt (answer_at ?u1 two_posts) ''cats'' ''all'' ''relevance'' ''week'' 1 = Inr ?r
     \<and> (1::real) < real (length [plain_post ''a'' ''alice'' 0, plain_post ''b'' ''bob'' 0])
     \<and> searchReddit rt (answer_at ?u2 two_posts) ''cats'' ''aww'' ''new'' ''day'' 250 = Inr ?r
     \<and> min (1000::real) 100 = min 250 100
     \<and> searchReddit rt (answer_at ?u2 two_posts) ''cats'' ''aww'' ''new'' ''day'' 1000 = Inr ?r
     \<and> (\<exists>response json children.
           answer_at ?u1 two_posts ?u1 = Inr response
         \<and> json_body response = Inr json
         \<and> js_or (jget_opt (jget_opt json ''data'') ''children'') (JArr []) = JArr children
         \<and> length children = 2
         \<and> list_all2 (\<lambda>p c. parsePost rt c = Inr p)
               [plain_post ''a'' ''alice'' 0, plain_post ''b'' ''bob'' 0] children)"
    by simp
qed
















section \<open>Properties of the Marketplace scraper\<close>

lemmas class_defs = digit_def digit_dot_def upper_def space_def nonspace_def any_char_def
  not_newline_def not_quote_def not_quote_qmark_def not_brace_def not_lt_def not_gt_def
  bar_dash_def

lemma extract_duplicate_doc:
  "extractFbData rt duplicate_doc =
     JObj [(''extracted_listings'',
        JArr [JObj [(''id'', JStr ''111''), (''title'', JStr ''Bike''),
                    (''price'', num_of (parse_float rt ''50'')), (''currency'', JStr ''USD'')],
              JObj [(''id'', JStr ''111''), (''title'', JStr ''Bike''),
                    (''price'', num_of (parse_float rt ''50'')), (''currency'', JStr ''USD'')]])]"
proof -
  have r: "group1 relay_rx duplicate_doc = None"
    by (simp add: group1_def relay_rx_def duplicate_doc_def listing_block_def)
  have c: "group1 comet_rx duplicate_doc = None"
    by (simp add: group1_def comet_rx_def duplicate_doc_def listing_block_def)
  have l: "listing_scan rt duplicate_doc =
       [JObj [(''id'', JStr ''111''), (''title'', JStr ''Bike''),
                    (''price'', num_of (parse_float rt ''50'')), (''currency'', JStr ''USD'')],
        JObj [(''id'', JStr ''111''), (''title'', JStr ''Bike''),
                    (''price'', num_of (parse_float rt ''50'')), (''currency'', JStr ''USD'')]]"
    by (simp add: listing_scan.simps listingRegex_def duplicate_doc_def listing_block_def
          class_defs)
  show ?thesis by (simp add: extractFbData_def r c l)
qed

lemma collect_duplicate_doc:
  "collect_listings rt [] limit duplicate_doc =
     structured_listings rt []
       (slice0 [JObj [(''id'', JStr ''111''), (''title'', JStr ''Bike''),
                    (''price'', num_of (parse_float rt ''50'')), (''currency'', JStr ''USD'')],
              JObj [(''id'', JStr ''111''), (''title'', JStr ''Bike''),
                    (''price'', num_of (parse_float rt ''50'')), (''currency'', JStr ''USD'')]] limit)"
  by (simp add: collect_listings_def extract_duplicate_doc jget_opt_def sliced_items_def)

lemma extract_cards_doc: "extractFbData rt cards_doc = JNull"
proof -
  have r: "group1 relay_rx cards_doc = None"
    by (simp add: group1_def relay_rx_def cards_doc_def card_link_def)
  have c: "group1 comet_rx cards_doc = None"
    by (simp add: group1_def comet_rx_def cards_doc_def card_link_def)
  have l: "listing_scan rt cards_doc = []"
    by (simp add: listing_scan.simps listingRegex_def cards_doc_def card_link_def)
  show ?thesis by (simp add: extractFbData_def r c l)
qed

lemma collect_cards_doc:
  "collect_listings rt [] limit cards_doc = Inr (card_scan limit [] cards_doc {} [])"
  by (simp add: collect_listings_def extract_cards_doc jget_opt_def)

lemma card_scan_cards_doc_1: "card_scan 1 [] cards_doc {} [] = [card_listing ''1'']"
  by (simp add: card_scan.simps cardRegex_def cards_doc_def card_link_def digit_def
        card_listing_def Let_def)

lemma card_scan_cards_doc_half: "card_scan (1 / 2) [] cards_doc {} [] = [card_listing ''1'']"
  by (simp add: card_scan.simps cardRegex_def cards_doc_def card_link_def digit_def
        card_listing_def Let_def)

lemma structured_duplicate_doc:
  "structured_listings rt []
       [JObj [(''id'', JStr ''111''), (''title'', JStr ''Bike''),
                    (''price'', num_of (parse_float rt ''50'')), (''currency'', JStr ''USD'')],
        JObj [(''id'', JStr ''111''), (''title'', JStr ''Bike''),
                    (''price'', num_of (parse_float rt ''50'')), (''currency'', JStr ''USD'')]]
     = Inr [block_listing rt ''111'' ''Bike'', block_listing rt ''111'' ''Bike'']"
  by (simp add: block_listing_def)

lemma search_duplicate_doc:
  "searchMarketplace rt (\<lambda>url. Inr (html_response duplicate_doc)) ''bike'' None None None None 20
     = Inr \<lparr> results = [block_listing rt ''111'' ''Bike'', block_listing rt ''111'' ''Bike''],
             total_results = 2 \<rparr>"
  by (simp add: searchMarketplace_def html_response_def collect_duplicate_doc
        slice0_def to_integer_def block_listing_def)


lemma to_integer_minus_one: "to_integer (- 1) = - 1"
proof -
  have "\<lceil>- 1 :: real\<rceil> = - 1" by (rule ceiling_unique) simp_all
  then show ?thesis by (simp add: to_integer_def)
qed

lemma slice0_minus_one: "slice0 xs (- 1) = butlast xs"
  by (cases "xs = []")
     (auto simp: slice0_def to_integer_minus_one butlast_conv_take Let_def nat_diff_distrib
        max_def)


lemma structured_listings_length:
  "structured_listings rt loc items = Inr found \<Longrightarrow> length found = length items"
proof (induction items arbitrary: found)
  case Nil
  then show ?case by simp
next
  case (Cons item items)
  then show ?case by (auto simp: and_then_Inr_iff split: if_splits)
qed

lemma sliced_items_length: "sliced_items v (real n) = Inr items \<Longrightarrow> length items \<le> n"
  by (cases v) (auto simp: sliced_items_def slice0_nat)

lemma card_scan_length:
  "limit = real n \<Longrightarrow> length found \<le> n \<Longrightarrow> length (card_scan limit loc html seenIds found) \<le> n"
proof (induction limit loc html seenIds found rule: card_scan.induct)
  case (1 limit loc html seenIds found)
  show ?case
  proof (cases "rfind cardRegex [] html")
    case None
    with 1 show ?thesis by (simp add: card_scan.simps [of _ _ html])
  next
    case (Some m)
    obtain pre gs rest where m: "m = (pre, gs, rest)" by (cases m) auto
    show ?thesis
    proof (cases "real (length found) < limit")
      case False
      with 1 Some m show ?thesis by (simp add: card_scan.simps [of _ _ html])
    next
      case True
      with 1(3) have lt: "length found < n" by simp
      show ?thesis
      proof (cases "gs ! 0 \<in> seenIds")
        case seen: True
        from 1(1) [OF Some m [symmetric] refl True refl seen 1(3) 1(4)] Some m True seen
        show ?thesis by (simp add: card_scan.simps [of _ _ html])
      next
        case new: False
        from lt have "length (found @ [partial_listing (JStr (gs ! 0)) (JStr []) (JNum 0)
            (JStr ''USD'') loc (item_url (gs ! 0))]) \<le> n"
          by simp
        from 1(2) [OF Some m [symmetric] refl True refl new 1(3) this] Some m True new
        show ?thesis by (simp add: card_scan.simps [of _ _ html] Let_def)
      qed
    qed
  qed
qed

lemma collect_listings_length:
  assumes "collect_listings rt loc (real n) html = Inr found"
  shows "length found \<le> n"
proof (cases "truthy (jget_opt (extractFbData rt html) ''extracted_listings'')")
  case True
  with assms obtain items
    where i: "sliced_items (jget_opt (extractFbData rt html) ''extracted_listings'') (real n)
                = Inr items"
      and s: "structured_listings rt loc items = Inr found"
    by (auto simp: collect_listings_def Let_def and_then_Inr_iff)
  from sliced_items_length [OF i] structured_listings_length [OF s] show ?thesis by simp
next
  case False
  with assms have "found = card_scan (real n) loc html {} []"
    by (simp add: collect_listings_def Let_def)
  then show ?thesis by (simp add: card_scan_length)
qed


lemma listing_id_partial [simp]: "listing_id (partial_listing i t p c loc url) = i"
  by (simp add: partial_listing_def)

lemma card_scan_distinct:
  "distinct (map listing_id found) \<Longrightarrow> set (map listing_id found) \<subseteq> JStr ` seenIds \<Longrightarrow>
   distinct (map listing_id (card_scan limit loc html seenIds found))"
proof (induction limit loc html seenIds found rule: card_scan.induct)
  case (1 limit loc html seenIds found)
  show ?case
  proof (cases "rfind cardRegex [] html")
    case None
    with 1 show ?thesis by (simp add: card_scan.simps [of _ _ html])
  next
    case (Some m)
    obtain pre gs rest where m: "m = (pre, gs, rest)" by (cases m) auto
    show ?thesis
    proof (cases "real (length found) < limit")
      case False
      with 1 Some m show ?thesis by (simp add: card_scan.simps [of _ _ html])
    next
      case True
      show ?thesis
      proof (cases "gs ! 0 \<in> seenIds")
        case seen: True
        from 1(1) [OF Some m [symmetric] refl True refl seen 1(3) 1(4)] Some m True seen
        show ?thesis by (simp add: card_scan.simps [of _ _ html])
      next
        case new: False
        let ?found = "found @ [partial_listing (JStr (gs ! 0)) (JStr []) (JNum 0)
            (JStr ''USD'') loc (item_url (gs ! 0))]"
        from new 1(4) have "JStr (gs ! 0) \<notin> set (map listing_id found)" by auto
        with 1(3) have d: "distinct (map listing_id ?found)" by simp
        from 1(4) have s: "set (map listing_id ?found) \<subseteq> JStr ` insert (gs ! 0) seenIds"
          by auto
        from 1(2) [OF Some m [symmetric] refl True refl new d s] Some m True new
        show ?thesis by (simp add: card_scan.simps [of _ _ html] Let_def)
      qed
    qed
  qed
qed

lemma category_scan_distinct:
  "distinct (map category_id categories) \<Longrightarrow> set (map category_id categories) \<subseteq> seen \<Longrightarrow>
   distinct (map category_id (category_scan html seen categories))"
proof (induction html seen categories rule: category_scan.induct)
  case (1 html seen categories)
  show ?case
  proof (cases "rfind catRegex [] html")
    case None
    with 1 show ?thesis by (simp add: category_scan.simps [of html])
  next
    case (Some m)
    obtain pre gs rest where m: "m = (pre, gs, rest)" by (cases m) auto
    let ?slug = "replace_first trailing_slash_rx [] (gs ! 0)"
    show ?thesis
    proof (cases "?slug \<in> seen")
      case True
      from 1(1) [OF Some m [symmetric] refl refl True 1(3) 1(4)] Some m True
      show ?thesis by (simp add: category_scan.simps [of html] Let_def)
    next
      case False
      let ?cats = "categories @ [\<lparr> category_id = ?slug, category_name = trim (gs ! 1),
          category_url = ''https://www.facebook.com/marketplace/category/'' @ ?slug \<rparr>]"
      from False 1(4) have "?slug \<notin> set (map category_id categories)" by auto
      with 1(3) have d: "distinct (map category_id ?cats)" by simp
      from 1(4) have s: "set (map category_id ?cats) \<subseteq> insert ?slug seen" by auto
      from 1(2) [OF Some m [symmetric] refl refl False d s] Some m False
      show ?thesis by (simp add: category_scan.simps [of html] Let_def)
    qed
  qed
qed

lemma markup_scan_ids_distinct:
  "distinct (map listing_id (slice0 (card_scan limit loc html {} []) limit))"
proof -
  have "distinct (map listing_id (card_scan limit loc html {} []))"
    by (rule card_scan_distinct) simp_all
  then show ?thesis
    by (simp add: slice0_def Let_def distinct_take flip: take_map)
qed

lemma getCategories_ids_distinct:
  "getCategories proxyFetch location = Inr categories \<Longrightarrow> distinct (map category_id categories)"
  by (auto simp: getCategories_def split: sum.splits if_splits intro!: category_scan_distinct)

text \<open>
  Claim C3, amended. For every limit that is a natural number and every response: when
  \<open>searchMarketplace\<close> returns, its results are at most \<open>limit\<close> and \<open>total_results\<close>
  is their number; when \<open>getNewListings\<close> returns, its results are at most \<open>limit\<close>
  (it returns no \<open>total_results\<close>).
\<close>

theorem marketplace_limit:
  "(searchMarketplace rt proxyFetch query location minPrice maxPrice radius (real n) = Inr r
      \<longrightarrow> length (results r) \<le> n \<and> total_results r = length (results r))
   \<and> (getNewListings rt proxyFetch query sinceHours (real n) = Inr r'
      \<longrightarrow> length (new_results r') \<le> n)"
  by (auto simp: searchMarketplace_def getNewListings_def and_then_Inr_iff slice0_nat
        split: sum.splits if_splits option.splits dest: collect_listings_length)

theorem marketplace_limit_witness:
  "\<forall>rt :: runtime. searchMarketplace rt (\<lambda>url. Inr (html_response cards_doc)) ''bike''
            None None None None 1
          = Inr \<lparr> results = [card_listing ''1''], total_results = 1 \<rparr>
      \<and> getNewListings (rt\<lparr>date_to_iso := \<lambda>ms. Some ''2026-01-01T00:00:00.000Z''\<rparr>)
            (\<lambda>url. Inr (html_response cards_doc)) ''bike'' 1 1
          = Inr \<lparr> new_results = [card_listing ''1''], since = ''2026-01-01T00:00:00.000Z'' \<rparr>
      \<and> length [card_listing ''1''] \<le> (1::nat)"
proof
  fix rt :: runtime
  let ?rt = "rt\<lparr>date_to_iso := \<lambda>ms. Some ''2026-01-01T00:00:00.000Z''\<rparr>"
  let ?f = "\<lambda>url::string. (Inr (html_response cards_doc) :: error + response)"
  have one: "slice0 [x] 1 = [x]" for x :: MarketplaceListing
    using slice0_nat [of "[x]" 1] by simp
  have a: "searchMarketplace rt ?f ''bike'' None None None None 1
          = Inr \<lparr> results = [card_listing ''1''], total_results = 1 \<rparr>"
    by (simp add: searchMarketplace_def html_response_def collect_cards_doc
          card_scan_cards_doc_1 one)
  have b: "getNewListings ?rt ?f ''bike'' 1 1
          = Inr \<lparr> new_results = [card_listing ''1''], since = ''2026-01-01T00:00:00.000Z'' \<rparr>"
    by (simp add: getNewListings_def html_response_def collect_cards_doc
          card_scan_cards_doc_1 one)
  from a b
    marketplace_limit [of rt ?f "''bike''" None None None None 1
      "\<lparr> results = [card_listing ''1''], total_results = 1 \<rparr>"]
    marketplace_limit [of ?rt ?f "''bike''" None None None None 1 _ 1
      "\<lparr> new_results = [card_listing ''1''], since = ''2026-01-01T00:00:00.000Z'' \<rparr>"]
  show "searchMarketplace rt ?f ''bike'' None None None None 1
          = Inr \<lparr> results = [card_listing ''1''], total_results = 1 \<rparr>
      \<and> getNewListings ?rt ?f ''bike'' 1 1
          = Inr \<lparr> new_results = [card_listing ''1''], since = ''2026-01-01T00:00:00.000Z'' \<rparr>
      \<and> length [card_listing ''1''] \<le> (1::nat)"
    by simp
qed


text \<open>
  Claim C3, as stated, fails for a limit that is negative or not an integer: with
  \<open>limit = -1\<close> the structured branch collects one of two listings and returns none of
  it, with \<open>limit = 1/2\<close> the markup scan collects one listing and returns none of it;
  both times \<open>total_results\<close> is 1 and the results are empty.
\<close>

theorem marketplace_limit_counterexample:
  "\<forall>rt. searchMarketplace rt (\<lambda>url. Inr (html_response duplicate_doc)) ''bike''
            None None None None (- 1)
          = Inr \<lparr> results = [], total_results = 1 \<rparr>
      \<and> searchMarketplace rt (\<lambda>url. Inr (html_response cards_doc)) ''bike''
            None None None None (1 / 2)
          = Inr \<lparr> results = [], total_results = 1 \<rparr>"
proof
  fix rt
  have a: "searchMarketplace rt (\<lambda>url. Inr (html_response duplicate_doc)) ''bike''
            None None None None (- 1)
          = Inr \<lparr> results = [], total_results = 1 \<rparr>"
    by (simp add: searchMarketplace_def html_response_def collect_duplicate_doc
          slice0_minus_one)
  have half: "slice0 xs (1 / 2) = []" for xs :: "MarketplaceListing list"
    by (simp add: slice0_def to_integer_def Let_def)
  have b: "searchMarketplace rt (\<lambda>url. Inr (html_response cards_doc)) ''bike''
            None None None None (1 / 2)
          = Inr \<lparr> results = [], total_results = 1 \<rparr>"
    by (simp add: searchMarketplace_def html_response_def collect_cards_doc
          card_scan_cards_doc_half half)
  from a b show "searchMarketplace rt (\<lambda>url. Inr (html_response duplicate_doc)) ''bike''
            None None None None (- 1)
          = Inr \<lparr> results = [], total_results = 1 \<rparr>
      \<and> searchMarketplace rt (\<lambda>url. Inr (html_response cards_doc)) ''bike''
            None None None None (1 / 2)
          = Inr \<lparr> results = [], total_results = 1 \<rparr>"
    by simp
qed


text \<open>
  Claim C1, at a failing input. A document without relay or hydration state in which the
  same listing block stands twice: the extractor's fallback finds both, the structured
  branch of \<open>searchMarketplace\<close> maps them one to one, and the result holds the id
  \<open>111\<close> twice. (The markup scan and \<open>getCategories\<close> do keep their ids distinct:
  \<open>markup_scan_ids_distinct\<close>, \<open>getCategories_ids_distinct\<close> above.)
\<close>

theorem searchMarketplace_structured_duplicates:
  "\<exists>r. searchMarketplace rt (\<lambda>url. Inr (html_response duplicate_doc)) ''bike'' None None None None 20
          = Inr r
      \<and> map listing_id (results r) = [JStr ''111'', JStr ''111'']
      \<and> \<not> distinct (map listing_id (results r))"
  by (simp add: search_duplicate_doc block_listing_def partial_listing_def)


lemma image_scan_image_doc: "image_scan image_doc [] = [escaped_uri]"
  by (simp add: image_scan.simps image_doc_def escaped_uri_def imageRegex_def not_quote_def
       backslash_def replace_first_def unescape_rx_def)

text \<open>
  Claim C8, at a failing input. A document with one image whose URI is written with
  escaped separators (\<open>https:\/\/cdn.example\/marketplace\/photo1.jpg\<close>): the \<open>images\<close>
  field holds the URI exactly as it stands in the document, escapes included, because the
  expression of the \<open>replace\<close> call matches the five characters backslash, slash,
  backslash, slash, \<open>g\<close> and not an escaped separator.
\<close>

theorem parseListing_images_keep_escapes:
  "\<exists>l. parseListingFromHtml rt image_doc item_page = Inr l
      \<and> listing_images l = [escaped_uri]
      \<and> escaped_uri \<noteq> ''https://cdn.example/marketplace/photo1.jpg''"
proof -
  have "group1 postTime_rx image_doc = None"
    by (simp add: group1_def postTime_rx_def image_doc_def escaped_uri_def backslash_def)
  then have "\<exists>l. parseListingFromHtml rt image_doc item_page = Inr l
      \<and> listing_images l = image_scan image_doc []"
    by (simp add: parseListingFromHtml_def Let_def)
  moreover have "escaped_uri \<noteq> ''https://cdn.example/marketplace/photo1.jpg''"
    by (simp add: escaped_uri_def backslash_def)
  ultimately show ?thesis by (simp add: image_scan_image_doc)
qed

lemma image_scan_length:
  "length images \<le> 10 \<Longrightarrow> length (image_scan html images) \<le> 10"
proof (induction html images rule: image_scan.induct)
  case (1 html images)
  show ?case
  proof (cases "rfind imageRegex [] html")
    case None
    with 1 show ?thesis by (simp add: image_scan.simps [of html])
  next
    case (Some m)
    obtain pre gs rest where m: "m = (pre, gs, rest)" by (cases m) auto
    show ?thesis
    proof (cases "length images < 10")
      case True
      with 1 Some m show ?thesis by (simp add: image_scan.simps [of html])
    next
      case False
      with 1 Some m show ?thesis by (simp add: image_scan.simps [of html])
    qed
  qed
qed

end
